theory Spec2Isabelle
  imports Complex_Main
begin

section \<open>Python values\<close>

text \<open>
  The library is dynamically typed Python (CircuitPython). The values that flow through the
  functions verified here are \<^verbatim>\<open>None\<close>, booleans, numbers, strings, sequences and the
  dictionaries produced by the JSON parser. Lists and tuples are kept apart: both pass
  \<^verbatim>\<open>isinstance(x, (list, tuple))\<close>, but only a tuple can be hashed. Dictionaries are those
  of parsed JSON, so their keys are strings. A float is a real number or one of the three
  special values; strings are \<open>char list\<close>. \<open>PObject\<close> is an instance of a driver class
  (a pin, an SD card, an audio output): opaque, true in a condition, hashable, neither
  subscriptable nor iterable.
\<close>

datatype pyfloat = Finite real | PosInf | NegInf | NaN

datatype pynum = PyInt int | PyFloat pyfloat

datatype pyval =
    PNone
  | PBool bool
  | PNum pynum
  | PStr string
  | PList "pyval list"
  | PTuple "pyval list"
  | PDict "(string \<times> pyval) list"
  | PObject nat

text \<open>
  Exceptions are values. Every \<^verbatim>\<open>except\<close> clause of the library selects on the class. Two
  handlers of \<^verbatim>\<open>fetch\<close> also read \<^verbatim>\<open>error.args[0]\<close>, of a \<^verbatim>\<open>KeyError\<close> and of a
  \<^verbatim>\<open>ValueError\<close>: these two classes carry their argument tuple. Where the interpreter or
  the library raises one of them with a message, the argument is that message; of the text
  of a message only the fact that it is a string matters below. The arguments of the other
  classes are never read and are dropped.
\<close>

datatype pyexn =
    KeyError "pyval list"
  | IndexError
  | TypeError
  | ValueError "pyval list"
  | AttributeError
  | MemoryError
  | OSError
  | RuntimeError
  | OverflowError
  | UnboundLocalError
  | ReloadException
  | OtherError

text \<open>Truthiness, as \<^verbatim>\<open>if x:\<close> tests it.\<close>

fun truthy :: "pyval \<Rightarrow> bool" where
  "truthy PNone = False"
| "truthy (PBool b) = b"
| "truthy (PNum (PyInt i)) = (i \<noteq> 0)"
| "truthy (PNum (PyFloat (Finite r))) = (r \<noteq> 0)"
| "truthy (PNum (PyFloat _)) = True"
| "truthy (PStr s) = (s \<noteq> [])"
| "truthy (PList xs) = (xs \<noteq> [])"
| "truthy (PTuple xs) = (xs \<noteq> [])"
| "truthy (PDict kvs) = (kvs \<noteq> [])"
| "truthy (PObject n) = True"

text \<open>\<^verbatim>\<open>isinstance(x, (list, tuple))\<close>.\<close>

fun is_seq :: "pyval \<Rightarrow> bool" where
  "is_seq (PList xs) = True"
| "is_seq (PTuple xs) = True"
| "is_seq v = False"

text \<open>What can be hashed, and so looked up in a dictionary: everything but lists,
  dictionaries and the tuples that contain one.\<close>

fun hashable :: "pyval \<Rightarrow> bool" where
  "hashable (PList xs) = False"
| "hashable (PDict kvs) = False"
| "hashable (PTuple xs) = (\<forall>x \<in> set xs. hashable x)"
| "hashable v = True"

text \<open>
  Indexing a sequence of length \<open>n\<close> by an integer: a negative index counts from the end,
  and an index outside \<open>-n .. n-1\<close> raises \<^verbatim>\<open>IndexError\<close>.
\<close>

definition seq_index :: "'a list \<Rightarrow> int \<Rightarrow> pyexn + 'a" where
  "seq_index xs i =
     (if 0 \<le> i \<and> i < int (length xs) then Inr (xs ! nat i)
      else if i < 0 \<and> - int (length xs) \<le> i then Inr (xs ! nat (int (length xs) + i))
      else Inl IndexError)"

text \<open>The integer an object stands for when used as an index (\<^verbatim>\<open>bool\<close> is an \<^verbatim>\<open>int\<close>).\<close>

fun as_index :: "pyval \<Rightarrow> int option" where
  "as_index (PNum (PyInt i)) = Some i"
| "as_index (PBool b) = Some (if b then 1 else 0)"
| "as_index v = None"

text \<open>
  \<^verbatim>\<open>value[x]\<close>. A dictionary raises \<^verbatim>\<open>TypeError\<close> for an unhashable key and
  \<^verbatim>\<open>KeyError\<close>, with the key as its argument, for a missing one; since the keys of the
  dictionaries at hand are strings, every hashable key that is not a string is missing. A
  list, tuple or string wants an integer; nothing else can be subscripted.
\<close>

definition lookup :: "(string \<times> pyval) list \<Rightarrow> pyval \<Rightarrow> pyexn + pyval" where
  "lookup kvs k =
     (if \<not> hashable k then Inl TypeError
      else case k of
             PStr s \<Rightarrow> (case map_of kvs s of Some v \<Rightarrow> Inr v | None \<Rightarrow> Inl (KeyError [k]))
           | other \<Rightarrow> Inl (KeyError [k]))"

fun getitem :: "pyval \<Rightarrow> pyval \<Rightarrow> pyexn + pyval" where
  "getitem (PDict kvs) k = lookup kvs k"
| "getitem (PList xs) k =
     (case as_index k of Some i \<Rightarrow> seq_index xs i | None \<Rightarrow> Inl TypeError)"
| "getitem (PTuple xs) k =
     (case as_index k of Some i \<Rightarrow> seq_index xs i | None \<Rightarrow> Inl TypeError)"
| "getitem (PStr s) k =
     (case as_index k of
        Some i \<Rightarrow> (case seq_index s i of Inl e \<Rightarrow> Inl e | Inr c \<Rightarrow> Inr (PStr [c]))
      | None \<Rightarrow> Inl TypeError)"
| "getitem v k = Inl TypeError"

text \<open>\<^verbatim>\<open>for x in v\<close>: the elements of a sequence, the characters of a string, the keys of a
  dictionary.\<close>

fun iterate :: "pyval \<Rightarrow> pyexn + pyval list" where
  "iterate (PList xs) = Inr xs"
| "iterate (PTuple xs) = Inr xs"
| "iterate (PStr s) = Inr (map (\<lambda>c. PStr [c]) s)"
| "iterate (PDict kvs) = Inr (map (\<lambda>kv. PStr (fst kv)) kvs)"
| "iterate v = Inl TypeError"

text \<open>\<^verbatim>\<open>int(x)\<close> on a number truncates towards zero and refuses infinities and NaN.\<close>

fun py_int :: "pynum \<Rightarrow> pyexn + int" where
  "py_int (PyInt i) = Inr i"
| "py_int (PyFloat (Finite r)) = Inr (if 0 \<le> r then \<lfloor>r\<rfloor> else \<lceil>r\<rceil>)"
| "py_int (PyFloat NaN) = Inl (ValueError [PStr ''cannot convert float NaN to integer''])"
| "py_int (PyFloat x) = Inl OverflowError"

section \<open>JSON traversal\<close>

text \<open>
  \<^verbatim>\<open>PyPortal._json_traverse(json, path)\<close> (adafruit_pyportal.py):
  \<^verbatim>\<open>
    value = json
    for x in path:
        value = value[x]
        gc.collect()
    return value
  \<close>
  The garbage collector call has no effect on values and is left out. The loop stops at the
  first subscript that raises.
\<close>

fun traverse_loop :: "pyval \<Rightarrow> pyval list \<Rightarrow> pyexn + pyval" where
  "traverse_loop val [] = Inr val"
| "traverse_loop val (x # path) =
     (case getitem val x of Inl e \<Rightarrow> Inl e | Inr v \<Rightarrow> traverse_loop v path)"

definition json_traverse :: "pyval \<Rightarrow> pyval \<Rightarrow> pyexn + pyval" where
  "json_traverse json path =
     (case iterate path of Inl e \<Rightarrow> Inl e | Inr xs \<Rightarrow> traverse_loop json xs)"

text \<open>
  The reading of the specification: \<open>j[k0][k1]...[kn]\<close> is the expression whose outermost
  subscript is the last key, evaluated inside out. \<open>nested_subscript j ks\<close> takes the keys
  outermost first (the path reversed).
\<close>

fun nested_subscript :: "pyval \<Rightarrow> pyval list \<Rightarrow> pyexn + pyval" where
  "nested_subscript j [] = Inr j"
| "nested_subscript j (k # inner) =
     (case nested_subscript j inner of Inl e \<Rightarrow> Inl e | Inr v \<Rightarrow> getitem v k)"

section \<open>Word wrapping\<close>

text \<open>\<^verbatim>\<open>str.split(sep)\<close> for a one-character separator: empty pieces are kept, and the
  result is never empty.\<close>

fun split_on :: "char \<Rightarrow> string \<Rightarrow> string list" where
  "split_on d [] = [[]]"
| "split_on d (c # cs) =
     (if c = d then [] # split_on d cs
      else (case split_on d cs of [] \<Rightarrow> [[c]] | w # ws \<Rightarrow> (c # w) # ws))"

text \<open>
  \<^verbatim>\<open>PyPortal.wrap_nicely(string, max_chars)\<close> (adafruit_pyportal.py):
  \<^verbatim>\<open>
    string = string.replace('\n', '').replace('\r', '')
    words = string.split(' ')
    the_lines = []
    the_line = ""
    for w in words:
        if len(the_line+' '+w) <= max_chars:
            the_line += ' '+w
        else:
            the_lines.append(the_line)
            the_line = ''+w
    if the_line:
        the_lines.append(the_line)
    the_lines[0] = the_lines[0][1:]
    return the_lines
  \<close>
  The assignment to \<^verbatim>\<open>the_lines[0]\<close> raises \<^verbatim>\<open>IndexError\<close> on an empty list; the model
  keeps that branch.
\<close>

definition strip_newlines :: "string \<Rightarrow> string" where
  "strip_newlines string =
     filter (\<lambda>c. c \<noteq> CHR 0x0D) (filter (\<lambda>c. c \<noteq> CHR 0x0A) string)"

fun wrap_loop :: "int \<Rightarrow> string list \<Rightarrow> string list \<Rightarrow> string \<Rightarrow> string list \<times> string" where
  "wrap_loop max_chars [] the_lines the_line = (the_lines, the_line)"
| "wrap_loop max_chars (w # ws) the_lines the_line =
     (if int (length (the_line @ '' '' @ w)) \<le> max_chars
      then wrap_loop max_chars ws the_lines (the_line @ '' '' @ w)
      else wrap_loop max_chars ws (the_lines @ [the_line]) w)"

definition wrap_nicely :: "string \<Rightarrow> int \<Rightarrow> pyexn + string list" where
  "wrap_nicely string max_chars =
     (let words = split_on CHR '' '' (strip_newlines string);
          (the_lines, the_line) = wrap_loop max_chars words [] [];
          the_lines = (if the_line \<noteq> [] then the_lines @ [the_line] else the_lines)
      in case the_lines of
           [] \<Rightarrow> Inl IndexError
         | l # ls \<Rightarrow> Inr (drop 1 l # ls))"

text \<open>The words of a line of text: its non-empty space-separated pieces.\<close>

definition words_of :: "string \<Rightarrow> string list" where
  "words_of s = filter (\<lambda>w. w \<noteq> []) (split_on CHR '' '' s)"

text \<open>Auxiliary predicates for the loop invariants of \<open>wrap_loop\<close>: a line is \<open>lead\<close> when it
  is empty or begins with a space, and it \<open>fits\<close> when it is short enough or holds no space.\<close>

definition lead :: "string \<Rightarrow> bool" where
  "lead l = (case l of [] \<Rightarrow> True | c # cs \<Rightarrow> c = CHR '' '')"

definition first_ok :: "string list \<Rightarrow> string \<Rightarrow> bool" where
  "first_ok ls l = (case ls of [] \<Rightarrow> lead l | x # xs \<Rightarrow> lead x)"

definition fits :: "int \<Rightarrow> string \<Rightarrow> bool" where
  "fits n l = (CHR '' '' \<in> set l \<longrightarrow> int (length l) \<le> n)"

section \<open>Effects\<close>

text \<open>
  Everything the library does to the outside world is a call into a driver, the network
  stack, the file system or a user callback. A run is recorded as the list of such calls
  (\<open>step\<close>s), in order, together with a few program points that the properties below refer
  to. Calls to \<^verbatim>\<open>print\<close> and \<^verbatim>\<open>gc.collect\<close> are not recorded.

  Methods of the class whose body only drives the display or the radio
  (\<^verbatim>\<open>_connect_esp\<close>, \<^verbatim>\<open>wget\<close>, \<^verbatim>\<open>set_background\<close>, \<^verbatim>\<open>set_text\<close>) appear as a single
  step where another method calls them; how such a call ends is up to the world.
\<close>

datatype step =
    FirmwareVersion
  | Sleep nat
  | EspReset
  | SetInterface
  | DigitalInOut string
  | SwitchToOutput bool
  | AudioOut string
  | SDCard
  | VfsFat
  | StorageMount
  | DutyCycle int
  | AutoBrightness bool
  | Brightness pynum
  | NeoFill "nat \<times> nat \<times> nat"
  | OpenLocalFile
  | ConnectEsp
  | RequestsGet pyval pyval
  | ResponseJson
  | SupervisorReload
  | JsonTraverse pyval
  | ReSearch pyval
  | Release
  | SetBackground pyval pyval
  | Wget pyval string int
  | SuccessCallback pyval
  | TextTransform nat pyval
  | SetText pyval nat
  | NetworkFetch pyval pyval
  | CheckResponse
  | ProcessImage pyval bool
  | GraphicsSetBackground pyval pyval
  | ProcessJson pyval pyval
  | ProcessText string pyval
  | FillTextLabels pyval

text \<open>
  The steps and what they stand for.
  \<^item> \<open>FirmwareVersion\<close>: reading \<^verbatim>\<open>self._esp.firmware_version\<close>; \<open>Sleep n\<close>:
    \<^verbatim>\<open>time.sleep(n)\<close>; \<open>EspReset\<close>: \<^verbatim>\<open>self._esp.reset()\<close>; \<open>SetInterface\<close>:
    \<^verbatim>\<open>requests.set_interface(self._esp)\<close>.
  \<^item> \<open>DigitalInOut pin\<close>, \<open>AudioOut pin\<close>, \<open>SDCard\<close>, \<open>VfsFat\<close>: the constructors of
    these names; \<open>SwitchToOutput b\<close>: \<^verbatim>\<open>switch_to_output(b)\<close> on the speaker pin;
    \<open>StorageMount\<close>: \<^verbatim>\<open>storage.mount(vfs, "/sd")\<close>.
  \<^item> \<open>DutyCycle d\<close>, \<open>AutoBrightness b\<close>, \<open>Brightness v\<close>: the assignments to
    \<^verbatim>\<open>duty_cycle\<close>, \<^verbatim>\<open>auto_brightness\<close> and \<^verbatim>\<open>brightness\<close>; \<open>NeoFill c\<close>:
    \<^verbatim>\<open>self.neopix.fill(c)\<close>.
  \<^item> \<open>OpenLocalFile\<close>: \<^verbatim>\<open>Fake_Requests(LOCALFILE)\<close>; \<open>ConnectEsp\<close>:
    \<^verbatim>\<open>self._connect_esp()\<close>; \<open>RequestsGet url headers\<close>:
    \<^verbatim>\<open>requests.get(url, headers=headers)\<close>; \<open>ResponseJson\<close>: \<^verbatim>\<open>r.json()\<close>;
    \<open>SupervisorReload\<close>: \<^verbatim>\<open>supervisor.reload()\<close>.
  \<^item> \<open>JsonTraverse path\<close>: the point where \<^verbatim>\<open>_json_traverse\<close> is called with \<open>path\<close>;
    \<open>ReSearch regexp\<close>: the point where \<^verbatim>\<open>re.search\<close> is called with \<open>regexp\<close>;
    \<open>Release\<close>: the point where the references to the response and the parsed JSON are
    dropped.
  \<^item> \<open>SetBackground file position\<close>: \<^verbatim>\<open>self.set_background(file, position)\<close>;
    \<open>Wget url filename chunk_size\<close>: \<^verbatim>\<open>self.wget(url, filename, chunk_size=chunk_size)\<close>;
    \<open>SuccessCallback values\<close>: the registered callback; \<open>TextTransform i v\<close>: the transform
    function of label \<open>i\<close>; \<open>SetText string i\<close>: \<^verbatim>\<open>self.set_text(string, index=i)\<close>.
  \<^item> In the package: \<open>NetworkFetch url timeout\<close>, \<open>CheckResponse\<close>,
    \<open>ProcessImage json sd\<close>, \<open>ProcessJson json path\<close> and \<open>ProcessText text regexp\<close>
    are the methods \<^verbatim>\<open>fetch\<close>, \<^verbatim>\<open>check_response\<close>, \<^verbatim>\<open>process_image\<close>,
    \<^verbatim>\<open>process_json\<close> and \<^verbatim>\<open>process_text\<close> of \<^verbatim>\<open>self.network\<close>;
    \<open>GraphicsSetBackground\<close> is \<^verbatim>\<open>self.graphics.set_background\<close> and \<open>FillTextLabels\<close>
    is \<^verbatim>\<open>self._fill_text_labels\<close>.
\<close>

text \<open>A call returns a value, raises, or never comes back.\<close>

datatype 'a outcome = Returns 'a | Raises pyexn | Hangs

text \<open>An HTTP response (or the \<^verbatim>\<open>Fake_Requests\<close> object read from the local file): its
  text, and what \<^verbatim>\<open>.json()\<close> does on it.\<close>

record response =
  resp_text :: string
  resp_json :: "pyexn + pyval"

text \<open>
  The world answers each call as a function of everything done so far, the call itself being
  the last element of the history; \<open>left_by\<close> says what a call into user code has made of an
  object it was handed. The pure library functions the code relies on are parameters too:
  \<^verbatim>\<open>re.search\<close> (no match, or the groups of the first match, group 0 first), the formatting
  \<^verbatim>\<open>"{:,d}".format(int(v))\<close>, the \<^verbatim>\<open>%\<close> operator on strings, the rounding of a real product
  to a float, the \<^verbatim>\<open>secrets\<close> dictionary and the two content-type constants of the network
  module.
\<close>

record world =
  reply_unit :: "step list \<Rightarrow> unit outcome"
  reply_val :: "step list \<Rightarrow> pyval outcome"
  reply_obj :: "step list \<Rightarrow> nat outcome"
  reply_resp :: "step list \<Rightarrow> response outcome"
  left_by :: "step list \<Rightarrow> pyval \<Rightarrow> pyval"
  re_search :: "pyval \<Rightarrow> string \<Rightarrow> pyexn + pyval list option"
  format_int :: "pyval \<Rightarrow> pyexn + pyval"
  percent_format :: "string \<Rightarrow> pyval list \<Rightarrow> pyexn + pyval"
  fp_round :: "real \<Rightarrow> real"
  secrets :: "(string \<times> pyval) list"
  CONTENT_JSON :: pyval
  CONTENT_TEXT :: pyval

text \<open>The state of a run: the object \<^verbatim>\<open>self\<close> and the history.\<close>

record 's machine =
  self :: 's
  hist :: "step list"

type_synonym ('s, 'a) prog = "'s machine \<Rightarrow> 'a outcome \<times> 's machine"

definition ret :: "'a \<Rightarrow> ('s, 'a) prog" where
  "ret x = (\<lambda>m. (Returns x, m))"

definition raise :: "pyexn \<Rightarrow> ('s, 'a) prog" where
  "raise e = (\<lambda>m. (Raises e, m))"

definition bind :: "('s, 'a) prog \<Rightarrow> ('a \<Rightarrow> ('s, 'b) prog) \<Rightarrow> ('s, 'b) prog" where
  "bind p f = (\<lambda>m. case p m of
       (Returns x, m') \<Rightarrow> f x m'
     | (Raises e, m') \<Rightarrow> (Raises e, m')
     | (Hangs, m') \<Rightarrow> (Hangs, m'))"

text \<open>\<^verbatim>\<open>try: p except ...\<close>: the handler table \<open>h\<close> gives the clause that catches an
  exception, if any.\<close>

definition try_except :: "('s, 'a) prog \<Rightarrow> (pyexn \<Rightarrow> ('s, 'a) prog option) \<Rightarrow> ('s, 'a) prog" where
  "try_except p h = (\<lambda>m. case p m of
       (Raises e, m') \<Rightarrow> (case h e of Some q \<Rightarrow> q m' | None \<Rightarrow> (Raises e, m'))
     | (Returns x, m') \<Rightarrow> (Returns x, m')
     | (Hangs, m') \<Rightarrow> (Hangs, m'))"

definition lift :: "pyexn + 'a \<Rightarrow> ('s, 'a) prog" where
  "lift r = (case r of Inl e \<Rightarrow> raise e | Inr x \<Rightarrow> ret x)"

definition get_self :: "('s, 's) prog" where
  "get_self = (\<lambda>m. (Returns (self m), m))"

definition modify_self :: "('s \<Rightarrow> 's) \<Rightarrow> ('s, unit) prog" where
  "modify_self f = (\<lambda>m. (Returns (), m\<lparr>self := f (self m)\<rparr>))"

definition emit :: "step \<Rightarrow> ('s, unit) prog" where
  "emit st = (\<lambda>m. (Returns (), m\<lparr>hist := hist m @ [st]\<rparr>))"

definition call_unit :: "world \<Rightarrow> step \<Rightarrow> ('s, unit) prog" where
  "call_unit w st = (\<lambda>m. (reply_unit w (hist m @ [st]), m\<lparr>hist := hist m @ [st]\<rparr>))"

definition call_val :: "world \<Rightarrow> step \<Rightarrow> ('s, pyval) prog" where
  "call_val w st = (\<lambda>m. (reply_val w (hist m @ [st]), m\<lparr>hist := hist m @ [st]\<rparr>))"

definition call_resp :: "world \<Rightarrow> step \<Rightarrow> ('s, response) prog" where
  "call_resp w st = (\<lambda>m. (reply_resp w (hist m @ [st]), m\<lparr>hist := hist m @ [st]\<rparr>))"

text \<open>A constructor call: what comes back is an instance.\<close>

definition call_obj :: "world \<Rightarrow> step \<Rightarrow> ('s, pyval) prog" where
  "call_obj w st = (\<lambda>m. (case reply_obj w (hist m @ [st]) of
         Returns n \<Rightarrow> Returns (PObject n) | Raises e \<Rightarrow> Raises e | Hangs \<Rightarrow> Hangs,
       m\<lparr>hist := hist m @ [st]\<rparr>))"

text \<open>
  User code (the success callback, a text transform function) that is handed a list, a
  dictionary or a tuple holding one can change its content in place: after the call the same
  object holds what the world says, of the same type. Every other value is immutable. The
  model lets such a call change every object it is handed, whether or not a reference to it
  is within reach of the code called: no run of the library is left out.
\<close>

fun altered :: "pyval \<Rightarrow> pyval \<Rightarrow> pyval" where
  "altered (PList xs) (PList ys) = PList ys"
| "altered (PDict kvs) (PDict kvs') = PDict kvs'"
| "altered (PTuple xs) (PTuple ys) =
     (if length ys = length xs \<and> \<not> hashable (PTuple xs) then PTuple ys else PTuple xs)"
| "altered v v' = v"

definition after_call :: "world \<Rightarrow> step list \<Rightarrow> pyval \<Rightarrow> pyval" where
  "after_call w h v = altered v (left_by w h v)"

text \<open>\<open>call_user w st v\<close>: the call \<open>st\<close> into user code while \<open>v\<close> is in its reach; the
  result of the call, and \<open>v\<close> as the call left it.\<close>

definition call_user :: "world \<Rightarrow> step \<Rightarrow> pyval \<Rightarrow> ('s, pyval \<times> pyval) prog" where
  "call_user w st v = (\<lambda>m. (case reply_val w (hist m @ [st]) of
         Returns x \<Rightarrow> Returns (x, after_call w (hist m @ [st]) v)
       | Raises e \<Rightarrow> Raises e
       | Hangs \<Rightarrow> Hangs,
       m\<lparr>hist := hist m @ [st]\<rparr>))"

text \<open>\<^verbatim>\<open>for x in xs: ys.append(f(x))\<close>.\<close>

fun collect :: "('a \<Rightarrow> ('s, 'b) prog) \<Rightarrow> 'a list \<Rightarrow> ('s, 'b list) prog" where
  "collect f [] = ret []"
| "collect f (x # xs) = bind (f x) (\<lambda>y. bind (collect f xs) (\<lambda>ys. ret (y # ys)))"

text \<open>\<^verbatim>\<open>for x in xs: acc = f(x, acc)\<close>.\<close>

fun for_each :: "('a \<Rightarrow> 'b \<Rightarrow> ('s, 'b) prog) \<Rightarrow> 'a list \<Rightarrow> 'b \<Rightarrow> ('s, 'b) prog" where
  "for_each f [] acc = ret acc"
| "for_each f (x # xs) acc = bind (f x acc) (for_each f xs)"

text \<open>The steps a program adds to the history from a given state, and its result.\<close>

definition steps_of :: "('s, 'a) prog \<Rightarrow> 's machine \<Rightarrow> step list" where
  "steps_of p m = drop (length (hist m)) (hist (snd (p m)))"

definition result_of :: "('s, 'a) prog \<Rightarrow> 's machine \<Rightarrow> 'a outcome" where
  "result_of p m = fst (p m)"

definition self_after :: "('s, 'a) prog \<Rightarrow> 's machine \<Rightarrow> 's" where
  "self_after p m = self (snd (p m))"

section \<open>Bringing up the ESP32\<close>

text \<open>
  \<^verbatim>\<open>PyPortal.__init__\<close> (adafruit_pyportal.py), after the ESP32 object exists:
  \<^verbatim>\<open>
    for _ in range(3): # retries
        try:
            print("ESP firmware:", self._esp.firmware_version)
            break
        except RuntimeError:
            print("Retrying ESP32 connection")
            time.sleep(1)
            self._esp.reset()
    else:
        raise RuntimeError("Was not able to find ESP32")
    requests.set_interface(self._esp)
  \<close>
  \<open>firmware_retries w n\<close> is the loop with \<open>n\<close> iterations left; the \<^verbatim>\<open>else\<close> clause of the
  \<^verbatim>\<open>for\<close> runs when the iterations are used up without a \<^verbatim>\<open>break\<close>. The body of the
  \<^verbatim>\<open>try\<close> yields \<open>True\<close> when it reaches the \<^verbatim>\<open>break\<close>.
\<close>

primrec firmware_retries :: "world \<Rightarrow> nat \<Rightarrow> ('s, unit) prog" where
  "firmware_retries w 0 = raise RuntimeError"
| "firmware_retries w (Suc n) =
     bind (try_except
             (bind (call_val w FirmwareVersion) (\<lambda>version. ret True))
             (\<lambda>e. if e = RuntimeError
                  then Some (bind (call_unit w (Sleep 1)) (\<lambda>_.
                             bind (call_unit w EspReset) (\<lambda>_. ret False)))
                  else None))
       (\<lambda>found. if found then ret () else firmware_retries w n)"

definition init_esp :: "world \<Rightarrow> ('s, unit) prog" where
  "init_esp w = bind (firmware_retries w 3) (\<lambda>_. call_unit w SetInterface)"

text \<open>One failed attempt, as it shows in the history.\<close>

definition failed_attempt :: "step list" where
  "failed_attempt = [FirmwareVersion, Sleep 1, EspReset]"

definition attempts :: "step list \<Rightarrow> nat" where
  "attempts es = length (filter (\<lambda>s. s = FirmwareVersion) es)"

text \<open>
  \<open>fails w h k\<close>: from history \<open>h\<close>, the first \<open>k\<close> firmware queries raise \<^verbatim>\<open>RuntimeError\<close>
  and the sleep and the reset that follow each of them return.
\<close>

fun fails :: "world \<Rightarrow> step list \<Rightarrow> nat \<Rightarrow> bool" where
  "fails w h 0 = True"
| "fails w h (Suc k) =
     (reply_val w (h @ [FirmwareVersion]) = Raises RuntimeError \<and>
      reply_unit w (h @ [FirmwareVersion, Sleep 1]) = Returns () \<and>
      reply_unit w (h @ failed_attempt) = Returns () \<and>
      fails w (h @ failed_attempt) k)"

section \<open>Peripherals\<close>

text \<open>
  \<^verbatim>\<open>Peripherals.__init__(self, spi, debug=False)\<close> (adafruit_pyportal/peripherals.py):
  \<^verbatim>\<open>
    self._speaker_enable = DigitalInOut(board.SPEAKER_ENABLE)
    self._speaker_enable.switch_to_output(False)
    if hasattr(board, "AUDIO_OUT"):
        self.audio = audioio.AudioOut(board.AUDIO_OUT)
    elif hasattr(board, "SPEAKER"):
        self.audio = audioio.AudioOut(board.SPEAKER)
    else:
        raise AttributeError("Board does not have a builtin speaker!")
    sd_cs = board.SD_CS
    if not NATIVE_SD:
        sd_cs = DigitalInOut(sd_cs)
    self._sdcard = None
    try:
        self._sdcard = sdcardio.SDCard(spi, sd_cs)
        vfs = storage.VfsFat(self._sdcard)
        storage.mount(vfs, "/sd")
    except OSError as error:
        print("No SD card found:", error)
  \<close>
  and \<^verbatim>\<open>sd_check\<close>:
  \<^verbatim>\<open>
    if self._sdcard:
        return True
    return False
  \<close>
\<close>

record board =
  has_AUDIO_OUT :: bool
  has_SPEAKER :: bool

record peripherals =
  speaker_enable :: pyval
  audio :: pyval
  sdcard :: pyval

text \<open>The last seven lines of \<^verbatim>\<open>__init__\<close>, from \<^verbatim>\<open>self._sdcard = None\<close> on.\<close>

definition init_sdcard :: "world \<Rightarrow> (peripherals, unit) prog" where
  "init_sdcard w =
     bind (modify_self (\<lambda>p. p\<lparr>sdcard := PNone\<rparr>)) (\<lambda>_.
     try_except
       (bind (call_obj w SDCard) (\<lambda>card.
        bind (modify_self (\<lambda>p. p\<lparr>sdcard := card\<rparr>)) (\<lambda>_.
        bind (call_obj w VfsFat) (\<lambda>vfs.
        call_unit w StorageMount))))
       (\<lambda>e. if e = OSError then Some (ret ()) else None))"

definition Peripherals_init :: "world \<Rightarrow> board \<Rightarrow> bool \<Rightarrow> (peripherals, unit) prog" where
  "Peripherals_init w brd NATIVE_SD =
     bind (call_obj w (DigitalInOut ''SPEAKER_ENABLE'')) (\<lambda>pin.
     bind (modify_self (\<lambda>p. p\<lparr>speaker_enable := pin\<rparr>)) (\<lambda>_.
     bind (call_unit w (SwitchToOutput False)) (\<lambda>_.
     bind (if has_AUDIO_OUT brd then call_obj w (AudioOut ''AUDIO_OUT'')
           else if has_SPEAKER brd then call_obj w (AudioOut ''SPEAKER'')
           else raise AttributeError) (\<lambda>out.
     bind (modify_self (\<lambda>p. p\<lparr>audio := out\<rparr>)) (\<lambda>_.
     bind (if \<not> NATIVE_SD then call_obj w (DigitalInOut ''SD_CS'') else ret (PStr ''SD_CS'')) (\<lambda>sd_cs.
     init_sdcard w))))))"

definition sd_check :: "peripherals \<Rightarrow> bool" where
  "sd_check p = (if truthy (sdcard p) then True else False)"

text \<open>A \<^verbatim>\<open>Peripherals\<close> object before \<^verbatim>\<open>__init__\<close> has run.\<close>

definition blank_peripherals :: "peripherals machine" where
  "blank_peripherals = \<lparr>self = \<lparr>speaker_enable = PNone, audio = PNone, sdcard = PNone\<rparr>, hist = []\<rparr>"

text \<open>
  \<^verbatim>\<open>"{:,d}".format(int(v))\<close> as Python computes it on \<^verbatim>\<open>None\<close>, booleans, integers, floats,
  containers and the strings made of decimal digits with an optional sign, which is all that
  the sample runs below pass to it: the digits of the integer, with a comma between groups of
  three.
\<close>

definition digit_char :: "nat \<Rightarrow> char" where
  "digit_char d = ''0123456789'' ! d"

fun digits :: "nat \<Rightarrow> string" where
  "digits n = (if n < 10 then [digit_char n] else digits (n div 10) @ [digit_char (n mod 10)])"

fun commas :: "string \<Rightarrow> string" where
  "commas ds =
     (if length ds \<le> 3 then ds
      else commas (take (length ds - 3) ds) @ '','' @ drop (length ds - 3) ds)"

definition comma_d :: "int \<Rightarrow> string" where
  "comma_d i = (if i < 0 then ''-'' @ commas (digits (nat (- i))) else commas (digits (nat i)))"

definition digit_value :: "char \<Rightarrow> nat option" where
  "digit_value c = map_of (zip ''0123456789'' [0 ..< 10]) c"

fun number :: "nat \<Rightarrow> string \<Rightarrow> nat option" where
  "number acc [] = Some acc"
| "number acc (c # cs) =
     (case digit_value c of None \<Rightarrow> None | Some d \<Rightarrow> number (10 * acc + d) cs)"

definition signed_number :: "string \<Rightarrow> int option" where
  "signed_number s =
     (case s of
        [] \<Rightarrow> None
      | c # cs \<Rightarrow>
          if c = CHR ''-'' \<and> cs \<noteq> [] then map_option (\<lambda>n. - int n) (number 0 cs)
          else if c = CHR ''+'' \<and> cs \<noteq> [] then map_option int (number 0 cs)
          else map_option int (number 0 s))"

fun decimal_format :: "pyval \<Rightarrow> pyexn + pyval" where
  "decimal_format (PNum (PyInt i)) = Inr (PStr (comma_d i))"
| "decimal_format (PBool b) = Inr (PStr (if b then ''1'' else ''0''))"
| "decimal_format (PNum (PyFloat x)) =
     (case py_int (PyFloat x) of Inl e \<Rightarrow> Inl e | Inr i \<Rightarrow> Inr (PStr (comma_d i)))"
| "decimal_format (PStr s) =
     (case signed_number s of
        None \<Rightarrow> Inl (ValueError [PStr ''invalid literal for int() with base 10''])
      | Some i \<Rightarrow> Inr (PStr (comma_d i)))"
| "decimal_format v = Inl TypeError"

text \<open>A world in which every call returns and user code changes nothing.\<close>

definition calm_world :: world where
  "calm_world = \<lparr>
     reply_unit = (\<lambda>h. Returns ()),
     reply_val = (\<lambda>h. Returns PNone),
     reply_obj = (\<lambda>h. Returns (length h)),
     reply_resp = (\<lambda>h. Raises OSError),
     left_by = (\<lambda>h v. v),
     re_search = (\<lambda>r t. Inr None),
     format_int = decimal_format,
     percent_format = (\<lambda>f args. Inl TypeError),
     fp_round = (\<lambda>x. x),
     secrets = [],
     CONTENT_JSON = PNum (PyInt 2),
     CONTENT_TEXT = PNum (PyInt 1)\<rparr>"

text \<open>
  A card is in the slot but holds no FAT file system: the \<^verbatim>\<open>SDCard\<close> and \<^verbatim>\<open>VfsFat\<close>
  constructors return and \<^verbatim>\<open>storage.mount\<close> raises \<^verbatim>\<open>OSError\<close>.
\<close>

definition unformatted_card :: world where
  "unformatted_card = calm_world\<lparr>reply_unit :=
     (\<lambda>h. if last h = StorageMount then Raises OSError else Returns ())\<rparr>"

definition pyportal_board :: board where
  "pyportal_board = \<lparr>has_AUDIO_OUT = True, has_SPEAKER = False\<rparr>"


text \<open>Worlds for the ESP32 bring-up: one whose firmware query always raises
  \<^verbatim>\<open>RuntimeError\<close>, one whose third query answers.\<close>

definition dead_esp :: world where
  "dead_esp = calm_world\<lparr>reply_val := (\<lambda>h. Raises RuntimeError)\<rparr>"

definition slow_esp :: world where
  "slow_esp = calm_world\<lparr>reply_val :=
     (\<lambda>h. if attempts h \<le> 2 then Raises RuntimeError else Returns (PStr ''1.2.2''))\<rparr>"

definition fresh :: "unit machine" where
  "fresh = \<lparr>self = (), hist = []\<rparr>"

section \<open>The backlight\<close>

text \<open>Comparison of numbers. An \<^verbatim>\<open>int\<close> compares with a \<^verbatim>\<open>float\<close> by value; every
  comparison with NaN is false.\<close>

definition float_lt :: "pyfloat \<Rightarrow> pyfloat \<Rightarrow> bool" where
  "float_lt x y = (case (x, y) of
       (Finite a, Finite b) \<Rightarrow> a < b
     | (Finite a, PosInf) \<Rightarrow> True
     | (NegInf, Finite b) \<Rightarrow> True
     | (NegInf, PosInf) \<Rightarrow> True
     | _ \<Rightarrow> False)"

fun to_float :: "pynum \<Rightarrow> pyfloat" where
  "to_float (PyInt i) = Finite (of_int i)"
| "to_float (PyFloat x) = x"

fun num_lt :: "pynum \<Rightarrow> pynum \<Rightarrow> bool" where
  "num_lt (PyInt a) (PyInt b) = (a < b)"
| "num_lt x y = float_lt (to_float x) (to_float y)"

text \<open>\<^verbatim>\<open>min(a, b)\<close> and \<^verbatim>\<open>max(a, b)\<close> keep the first argument unless the second is strictly
  smaller, respectively strictly larger.\<close>

definition py_min :: "pynum \<Rightarrow> pynum \<Rightarrow> pynum" where
  "py_min a b = (if num_lt b a then b else a)"

definition py_max :: "pynum \<Rightarrow> pynum \<Rightarrow> pynum" where
  "py_max a b = (if num_lt a b then b else a)"

text \<open>\<^verbatim>\<open>val * 65535\<close>: exact on integers; on floats the real product rounded.\<close>

fun times_65535 :: "world \<Rightarrow> pynum \<Rightarrow> pynum" where
  "times_65535 w (PyInt i) = PyInt (i * 65535)"
| "times_65535 w (PyFloat (Finite r)) = PyFloat (Finite (fp_round w (r * 65535)))"
| "times_65535 w (PyFloat x) = PyFloat x"

text \<open>
  \<^verbatim>\<open>PyPortal.set_backlight(self, val)\<close> (the same in adafruit_pyportal.py and in
  adafruit_pyportal/__init__.py, which writes \<^verbatim>\<open>self.display\<close> for \<^verbatim>\<open>board.DISPLAY\<close>):
  \<^verbatim>\<open>
    val = max(0, min(1.0, val))
    if self._backlight:
        self._backlight.duty_cycle = int(val * 65535)
    else:
        board.DISPLAY.auto_brightness = False
        board.DISPLAY.brightness = val
  \<close>
  The three attribute writes are steps.
\<close>

record backlit =
  backlight :: pyval

definition clamped :: "pynum \<Rightarrow> pynum" where
  "clamped val = py_max (PyInt 0) (py_min (PyFloat (Finite 1)) val)"

definition set_backlight :: "world \<Rightarrow> pynum \<Rightarrow> ('a backlit_scheme, unit) prog" where
  "set_backlight w val =
     bind get_self (\<lambda>p.
       if truthy (backlight p)
       then bind (lift (py_int (times_65535 w (clamped val)))) (\<lambda>d. emit (DutyCycle d))
       else bind (emit (AutoBrightness False)) (\<lambda>_. emit (Brightness (clamped val))))"

definition pwm_board :: "backlit machine" where
  "pwm_board = \<lparr>self = \<lparr>backlight = PObject 0\<rparr>, hist = []\<rparr>"

section \<open>The monolithic module: \<^verbatim>\<open>PyPortal.fetch\<close>\<close>

text \<open>
  The attributes of a \<^verbatim>\<open>PyPortal\<close> object (adafruit_pyportal.py) that \<^verbatim>\<open>fetch\<close> reads.
  \<open>text_slots\<close> stands for the parallel lists \<^verbatim>\<open>_text\<close>, \<^verbatim>\<open>_text_transform\<close> and
  \<^verbatim>\<open>_text_wrap\<close>: one entry per label, saying whether a transform function is registered and
  the wrap width (0 or \<^verbatim>\<open>False\<close> for none). It is empty when \<^verbatim>\<open>_text\<close> is \<^verbatim>\<open>None\<close>.
\<close>

record text_slot =
  has_transform :: bool
  wrap :: int

record pyportal = backlit +
  url :: pyval
  headers :: pyval
  json_path :: pyval
  regexp_path :: pyval
  image_json_path :: pyval
  image_url_path :: pyval
  image_resize :: pyval
  image_position :: pyval
  default_bg :: pyval
  uselocal :: bool
  neopix :: pyval
  sd_card :: pyval
  success_callback :: pyval
  text_slots :: "text_slot list"

text \<open>
  \<^verbatim>\<open>__init__\<close> stores the JSON path as a sequence of paths:
  \<^verbatim>\<open>
    if json_path:
        if isinstance(json_path[0], (list, tuple)):
            self._json_path = json_path
        else:
            self._json_path = (json_path,)
    else:
        self._json_path = None
  \<close>
\<close>

definition init_json_path :: "pyval \<Rightarrow> pyexn + pyval" where
  "init_json_path path =
     (if truthy path
      then (case getitem path (PNum (PyInt 0)) of
              Inl e \<Rightarrow> Inl e
            | Inr first \<Rightarrow> Inr (if is_seq first then path else PTuple [path]))
      else Inr PNone)"

text \<open>\<^verbatim>\<open>neo_status\<close>: \<^verbatim>\<open>if self.neopix: self.neopix.fill(value)\<close>.\<close>

definition neo_status :: "nat \<times> nat \<times> nat \<Rightarrow> (pyportal, unit) prog" where
  "neo_status colour =
     bind get_self (\<lambda>p. if truthy (neopix p) then emit (NeoFill colour) else ret ())"

definition IMAGE_CONVERTER_SERVICE :: string where
  "IMAGE_CONVERTER_SERVICE =
     ''https://io.adafruit.com/api/v2/%s/integrations/image-formatter?x-aio-key=%s&width=%d&height=%d&output=BMP%d&url=%s''"

text \<open>
  \<^verbatim>\<open>image_converter_url(image_url, width, height, color_depth=16)\<close>: a missing
  \<^verbatim>\<open>aio_username\<close> or \<^verbatim>\<open>aio_key\<close> in \<^verbatim>\<open>secrets\<close> raises a \<^verbatim>\<open>KeyError\<close> whose argument
  is a message.
\<close>

definition no_account :: pyexn where
  "no_account = KeyError [PStr ''Our image converter service require a login/password to rate-limit.'']"

definition image_converter_url :: "world \<Rightarrow> pyval \<Rightarrow> pyval \<Rightarrow> pyval \<Rightarrow> pyexn + pyval" where
  "image_converter_url w image_url width height =
     (case map_of (secrets w) ''aio_username'' of
        None \<Rightarrow> Inl no_account
      | Some aio_username \<Rightarrow>
          (case map_of (secrets w) ''aio_key'' of
             None \<Rightarrow> Inl no_account
           | Some aio_key \<Rightarrow>
               percent_format w IMAGE_CONVERTER_SERVICE
                 [aio_username, aio_key, width, height, PNum (PyInt 16), image_url]))"

text \<open>\<^verbatim>\<open>m.group(1)\<close> on the result of \<^verbatim>\<open>re.search\<close>: \<^verbatim>\<open>None\<close>, the answer when nothing
  matches, has no such method, and a pattern without a group has no group 1.\<close>

definition group1 :: "pyexn + pyval list option \<Rightarrow> pyexn + pyval" where
  "group1 found =
     (case found of
        Inl e \<Rightarrow> Inl e
      | Inr None \<Rightarrow> Inl AttributeError
      | Inr (Some groups) \<Rightarrow> if 1 < length groups then Inr (groups ! 1) else Inl IndexError)"

text \<open>The string \<^verbatim>\<open>error.args[0]\<close> that the two handlers of \<^verbatim>\<open>fetch\<close> append to their
  message: the tuple of arguments may be empty, and only a string can be appended to a
  string.\<close>

definition args0 :: "pyval list \<Rightarrow> pyexn + string" where
  "args0 args =
     (case args of
        [] \<Rightarrow> Inl IndexError
      | PStr s # rest \<Rightarrow> Inr s
      | other # rest \<Rightarrow> Inl TypeError)"

text \<open>\<^verbatim>\<open>len(values)\<close>.\<close>

fun py_len :: "pyval \<Rightarrow> pyexn + nat" where
  "py_len (PStr s) = Inr (length s)"
| "py_len (PList xs) = Inr (length xs)"
| "py_len (PTuple xs) = Inr (length xs)"
| "py_len (PDict kvs) = Inr (length kvs)"
| "py_len v = Inl TypeError"

fun join_lines :: "string list \<Rightarrow> string" where
  "join_lines [] = []"
| "join_lines [l] = l"
| "join_lines (l # ls) = l @ CHR 0x0A # join_lines ls"

text \<open>\<^verbatim>\<open>'\n'.join(PyPortal.wrap_nicely(string, max_chars))\<close>; anything but a string has no
  \<^verbatim>\<open>replace\<close> method.\<close>

definition wrap_text :: "pyval \<Rightarrow> int \<Rightarrow> pyexn + pyval" where
  "wrap_text string max_chars =
     (case string of
        PStr s \<Rightarrow> (case wrap_nicely s max_chars of
                     Inl e \<Rightarrow> Inl e
                   | Inr lines \<Rightarrow> Inr (PStr (join_lines lines)))
      | other \<Rightarrow> Inl AttributeError)"

text \<open>
  \<^verbatim>\<open>fetch\<close>, part by part. First the optional change of URL:
  \<^verbatim>\<open>
    if refresh_url:
        self._url = refresh_url
  \<close>
\<close>

definition refresh :: "pyval \<Rightarrow> (pyportal, unit) prog" where
  "refresh refresh_url =
     (if truthy refresh_url then modify_self (\<lambda>p. p\<lparr>url := refresh_url\<rparr>) else ret ())"

text \<open>
  \<^verbatim>\<open>
    r = None
    if self._uselocal:
        r = Fake_Requests(LOCALFILE)
    if not r:
        self._connect_esp()
        self.neo_status((100, 100, 0))
        r = requests.get(self._url, headers=self._headers)
        self.neo_status((0, 0, 100))
  \<close>
  A \<^verbatim>\<open>Fake_Requests\<close> object is true in a condition.
\<close>

definition obtain_response :: "world \<Rightarrow> (pyportal, response) prog" where
  "obtain_response w =
     bind get_self (\<lambda>p.
     bind (if uselocal p then bind (call_resp w OpenLocalFile) (\<lambda>r. ret (Some r)) else ret None)
       (\<lambda>r. case r of
          Some r \<Rightarrow> ret r
        | None \<Rightarrow>
            bind (call_unit w ConnectEsp) (\<lambda>_.
            bind (neo_status (100, 100, 0)) (\<lambda>_.
            bind (call_resp w (RequestsGet (url p) (headers p))) (\<lambda>r.
            bind (neo_status (0, 0, 100)) (\<lambda>_.
            ret r))))))"

text \<open>
  \<^verbatim>\<open>
    if self._image_json_path or self._json_path:
        try:
            json_out = r.json()
        except ValueError:
            print("Couldn't parse json: ", r.text)
            raise
        except MemoryError:
            supervisor.reload()
  \<close>
  \<^verbatim>\<open>supervisor.reload()\<close> does not return to its caller: it raises the interpreter's reload
  exception.
\<close>

definition parse_json :: "response \<Rightarrow> (pyportal, pyval) prog" where
  "parse_json r =
     bind get_self (\<lambda>p.
       if truthy (image_json_path p) \<or> truthy (json_path p)
       then try_except
              (bind (emit ResponseJson) (\<lambda>_. lift (resp_json r)))
              (\<lambda>e. case e of
                     ValueError args \<Rightarrow> Some (raise e)
                   | MemoryError \<Rightarrow>
                       Some (bind (emit SupervisorReload) (\<lambda>_. raise ReloadException))
                   | other \<Rightarrow> None)
       else ret PNone)"

text \<open>
  \<^verbatim>\<open>
    if self._json_path:
        for path in self._json_path:
            try:
                values.append(PyPortal._json_traverse(json_out, path))
            except KeyError:
                print(json_out)
                raise
    elif self._regexp_path:
        for regexp in self._regexp_path:
            values.append(re.search(regexp, r.text).group(1))
    else:
        values = r.text
  \<close>
\<close>

definition extract_values :: "world \<Rightarrow> response \<Rightarrow> pyval \<Rightarrow> (pyportal, pyval) prog" where
  "extract_values w r json_out =
     bind get_self (\<lambda>p.
       if truthy (json_path p)
       then bind (lift (iterate (json_path p))) (\<lambda>paths.
            bind (collect (\<lambda>path. bind (emit (JsonTraverse path)) (\<lambda>_.
                                   lift (json_traverse json_out path))) paths) (\<lambda>values.
            ret (PList values)))
       else if truthy (regexp_path p)
       then bind (lift (iterate (regexp_path p))) (\<lambda>regexps.
            bind (collect (\<lambda>regexp. bind (emit (ReSearch regexp)) (\<lambda>_.
                                     lift (group1 (re_search w regexp (resp_text r))))) regexps)
              (\<lambda>values.
            ret (PList values)))
       else ret (PStr (resp_text r)))"

text \<open>
  \<^verbatim>\<open>
    if self._image_json_path:
        try:
            image_url = PyPortal._json_traverse(json_out, self._image_json_path)
        except KeyError as error:
            print("Error finding image data. '" + error.args[0] + "' not found.")
            self.set_background(self._default_bg)
  \<close>
  The handler first builds its message from the key that was missing, which raises
  \<^verbatim>\<open>TypeError\<close> when that key is not a string; only then does it set the default
  background.
\<close>

definition find_image_url :: "world \<Rightarrow> pyval \<Rightarrow> pyval \<Rightarrow> (pyportal, pyval) prog" where
  "find_image_url w json_out image_url =
     bind get_self (\<lambda>p.
       if truthy (image_json_path p)
       then try_except
              (bind (emit (JsonTraverse (image_json_path p))) (\<lambda>_.
               lift (json_traverse json_out (image_json_path p))))
              (\<lambda>e. case e of
                     KeyError args \<Rightarrow>
                       Some (bind (lift (args0 args)) (\<lambda>missing.
                             bind (call_unit w (SetBackground (default_bg p) PNone)) (\<lambda>_.
                             ret image_url)))
                   | other \<Rightarrow> None)
       else ret image_url)"

text \<open>
  \<^verbatim>\<open>
    if image_url:
        try:
            image_url = self.image_converter_url(image_url,
                                                 self._image_resize[0],
                                                 self._image_resize[1])
            filename = "/cache.bmp"
            chunk_size = 12000
            if self._sdcard:
                filename = "/sd" + filename
                chunk_size = 512
            try:
                self.wget(image_url, filename, chunk_size=chunk_size)
            except OSError as error:
                raise OSError("...")
            except RuntimeError as error:
                raise RuntimeError("wget didn't write a complete file")
            self.set_background(filename, self._image_position)
        except ValueError as error:
            print("Error displaying cached image. " + error.args[0])
            self.set_background(self._default_bg)
        finally:
            image_url = None
            gc.collect()
  \<close>
  The handler of \<^verbatim>\<open>ValueError\<close> first builds its message from the argument of the
  exception, which raises \<^verbatim>\<open>IndexError\<close> when there is none and \<^verbatim>\<open>TypeError\<close> when it is
  not a string; only then does it set the default background.
\<close>

definition show_image :: "world \<Rightarrow> pyval \<Rightarrow> (pyportal, unit) prog" where
  "show_image w image_url =
     bind get_self (\<lambda>p.
       if truthy image_url
       then try_except
              (bind (lift (getitem (image_resize p) (PNum (PyInt 0)))) (\<lambda>width.
               bind (lift (getitem (image_resize p) (PNum (PyInt 1)))) (\<lambda>height.
               bind (lift (image_converter_url w image_url width height)) (\<lambda>converted.
               bind (ret (if truthy (sd_card p) then ''/sd/cache.bmp'' else ''/cache.bmp''))
                 (\<lambda>filename.
               bind (ret (if truthy (sd_card p) then 512 else 12000)) (\<lambda>chunk_size.
               bind (try_except (call_unit w (Wget converted filename chunk_size))
                       (\<lambda>e. if e = OSError then Some (raise OSError)
                            else if e = RuntimeError then Some (raise RuntimeError)
                            else None)) (\<lambda>_.
               call_unit w (SetBackground (PStr filename) (image_position p)))))))))
              (\<lambda>e. case e of
                     ValueError args \<Rightarrow>
                       Some (bind (lift (args0 args)) (\<lambda>reason.
                             call_unit w (SetBackground (default_bg p) PNone)))
                   | other \<Rightarrow> None)
       else ret ())"

text \<open>
  \<^verbatim>\<open>
    if self._success_callback:
        self._success_callback(values)
  \<close>
  The callback is handed the very list that \<^verbatim>\<open>fetch\<close> goes on to use and to return; the
  result is \<^verbatim>\<open>values\<close> as the callback left it.
\<close>

definition notify :: "world \<Rightarrow> pyval \<Rightarrow> (pyportal, pyval) prog" where
  "notify w values =
     bind get_self (\<lambda>p.
       if truthy (success_callback p)
       then bind (call_user w (SuccessCallback values) values) (\<lambda>answer. ret (snd answer))
       else ret values)"

text \<open>
  \<^verbatim>\<open>
    if self._text:
        for i in range(len(self._text)):
            string = None
            if self._text_transform[i]:
                func = self._text_transform[i]
                string = func(values[i])
            else:
                try:
                    string = "{:,d}".format(int(values[i]))
                except (TypeError, ValueError):
                    string = values[i] # ok its a string
            if self._text_wrap[i]:
                lines = PyPortal.wrap_nicely(string, self._text_wrap[i])
                string = '\n'.join(lines)
            self.set_text(string, index=i)
  \<close>
  A transform function is user code: \<open>label_text\<close> gives the string for label \<open>i\<close> and
  \<^verbatim>\<open>values\<close> as it is afterwards, and the loop carries \<^verbatim>\<open>values\<close> from label to label.
\<close>

fun value_or_type_error :: "pyexn \<Rightarrow> bool" where
  "value_or_type_error TypeError = True"
| "value_or_type_error (ValueError args) = True"
| "value_or_type_error e = False"

definition label_text ::
    "world \<Rightarrow> text_slot \<Rightarrow> nat \<Rightarrow> pyval \<Rightarrow> (pyportal, pyval \<times> pyval) prog" where
  "label_text w slot i values =
     (if has_transform slot
      then bind (lift (getitem values (PNum (PyInt (int i))))) (\<lambda>v.
           call_user w (TextTransform i v) values)
      else bind (try_except
                   (bind (lift (getitem values (PNum (PyInt (int i))))) (\<lambda>v.
                    lift (format_int w v)))
                   (\<lambda>e. if value_or_type_error e
                        then Some (lift (getitem values (PNum (PyInt (int i)))))
                        else None)) (\<lambda>string.
           ret (string, values)))"

definition fill_label :: "world \<Rightarrow> nat \<times> text_slot \<Rightarrow> pyval \<Rightarrow> (pyportal, pyval) prog" where
  "fill_label w entry values =
     (case entry of (i, slot) \<Rightarrow>
        bind (label_text w slot i values) (\<lambda>labelled.
        bind (if wrap slot \<noteq> 0 then lift (wrap_text (fst labelled) (wrap slot))
              else ret (fst labelled)) (\<lambda>string.
        bind (call_unit w (SetText string i)) (\<lambda>_.
        ret (snd labelled)))))"

definition fill_text :: "world \<Rightarrow> pyval \<Rightarrow> (pyportal, pyval) prog" where
  "fill_text w values =
     bind get_self (\<lambda>p.
       if text_slots p \<noteq> []
       then for_each (fill_label w) (enumerate 0 (text_slots p)) values
       else ret values)"

text \<open>
  \<^verbatim>\<open>
    if len(values) == 1:
        return values[0]
    return values
  \<close>
\<close>

definition unwrap :: "pyval \<Rightarrow> pyexn + pyval" where
  "unwrap values =
     (case py_len values of
        Inl e \<Rightarrow> Inl e
      | Inr n \<Rightarrow> if n = 1 then getitem values (PNum (PyInt 0)) else Inr values)"

text \<open>
  The whole of \<^verbatim>\<open>fetch(self, refresh_url=None)\<close>: the change of URL, the response, and
  all that is done with the response. Between the extraction of the values and the image, the
  code drops its references to the response and to the parsed JSON
  (\<^verbatim>\<open>json_out = None; r = None; gc.collect()\<close>): the program point \<open>Release\<close>.
\<close>

definition process_response :: "world \<Rightarrow> response \<Rightarrow> (pyportal, pyval) prog" where
  "process_response w r =
     bind (parse_json r) (\<lambda>json_out.
     bind get_self (\<lambda>p.
     bind (ret (if truthy (image_url_path p) then image_url_path p else PNone)) (\<lambda>image_url.
     bind (extract_values w r json_out) (\<lambda>values.
     bind (find_image_url w json_out image_url) (\<lambda>image_url.
     bind (emit Release) (\<lambda>_.
     bind (show_image w image_url) (\<lambda>_.
     bind (notify w values) (\<lambda>values.
     bind (fill_text w values) (\<lambda>values.
     lift (unwrap values))))))))))"

definition fetch_body :: "world \<Rightarrow> (pyportal, pyval) prog" where
  "fetch_body w = bind (obtain_response w) (process_response w)"

definition fetch :: "world \<Rightarrow> pyval \<Rightarrow> (pyportal, pyval) prog" where
  "fetch w refresh_url = bind (refresh refresh_url) (\<lambda>_. fetch_body w)"


section \<open>The package: \<^verbatim>\<open>PyPortal.fetch\<close>\<close>

text \<open>
  \<^verbatim>\<open>PyPortal\<close> in adafruit_pyportal/__init__.py delegates to a \<^verbatim>\<open>Network\<close> and a
  \<^verbatim>\<open>Graphics\<close> object and to its base class. Those classes are not part of the sources at
  hand; their methods are calls answered by the world.
  \<^verbatim>\<open>
    if refresh_url:
        self.url = refresh_url
    response = self.network.fetch(self.url, timeout=timeout)
    json_out = None
    content_type = self.network.check_response(response)
    json_path = self._json_path
    if content_type == CONTENT_JSON:
        if json_path is not None:
            if isinstance(json_path, (list, tuple)) and (
                not json_path or not isinstance(json_path[0], (list, tuple))
            ):
                json_path = (json_path,)
        try:
            json_out = response.json()
        except ValueError:
            raise
        except MemoryError:
            supervisor.reload()
    try:
        filename, position = self.network.process_image(
            json_out, self.peripherals.sd_check()
        )
        if filename and position is not None:
            self.graphics.set_background(filename, position)
    except ValueError as error:
        print("Error displaying cached image. " + error.args[0])
        if self._default_bg is not None:
            self.graphics.set_background(self._default_bg)
    if content_type == CONTENT_JSON:
        values = self.network.process_json(json_out, json_path)
    elif content_type == CONTENT_TEXT:
        values = self.network.process_text(response.text, self._regexp_path)
    if self._success_callback:
        self._success_callback(values)
    self._fill_text_labels(values)
    json_out = None
    response = None
    gc.collect()
    return values
  \<close>
  When the content type is neither constant, \<^verbatim>\<open>values\<close> is unbound and its first use
  raises \<^verbatim>\<open>UnboundLocalError\<close>. The callback and \<^verbatim>\<open>_fill_text_labels\<close>, which calls the
  transform functions, are handed \<^verbatim>\<open>values\<close> and may change it. As in the monolithic
  module, the handler of \<^verbatim>\<open>ValueError\<close> builds its message from the argument of the
  exception before it touches the background.
\<close>

text \<open>\<^verbatim>\<open>a == b\<close>, as far as the content type needs it: numbers (and booleans) compare by
  value and NaN equals nothing; any other two values are compared as they are written.\<close>

fun number_of :: "pyval \<Rightarrow> pyfloat option" where
  "number_of (PBool b) = Some (Finite (if b then 1 else 0))"
| "number_of (PNum n) = Some (to_float n)"
| "number_of v = None"

definition py_eq :: "pyval \<Rightarrow> pyval \<Rightarrow> bool" where
  "py_eq a b =
     (case (number_of a, number_of b) of
        (Some x, Some y) \<Rightarrow> x = y \<and> x \<noteq> NaN
      | (None, None) \<Rightarrow> a = b
      | other \<Rightarrow> False)"

record portal = backlit +
  p_url :: pyval
  p_json_path :: pyval
  p_regexp_path :: pyval
  p_default_bg :: pyval
  p_success_callback :: pyval
  p_peripherals :: peripherals

text \<open>The rewriting of \<^verbatim>\<open>json_path\<close>: a sequence that is empty or does not begin with a
  sequence becomes a one-element tuple holding it; \<^verbatim>\<open>None\<close> and everything else stay.\<close>

definition wrap_single_path :: "pyval \<Rightarrow> pyval" where
  "wrap_single_path path =
     (if path \<noteq> PNone \<and> is_seq path \<and>
         (\<not> truthy path \<or>
          (case getitem path (PNum (PyInt 0)) of Inr first \<Rightarrow> \<not> is_seq first | Inl e \<Rightarrow> False))
      then PTuple [path]
      else path)"

text \<open>\<^verbatim>\<open>a, b = x\<close>.\<close>

definition unpack2 :: "pyval \<Rightarrow> pyexn + pyval \<times> pyval" where
  "unpack2 x =
     (case iterate x of
        Inl e \<Rightarrow> Inl e
      | Inr [a, b] \<Rightarrow> Inr (a, b)
      | Inr other \<Rightarrow> Inl (ValueError [PStr ''wrong number of values to unpack'']))"

definition bound :: "pyval option \<Rightarrow> pyexn + pyval" where
  "bound v = (case v of None \<Rightarrow> Inl UnboundLocalError | Some x \<Rightarrow> Inr x)"

definition parse_json2 :: "response \<Rightarrow> (portal, pyval) prog" where
  "parse_json2 response =
     try_except
       (bind (emit ResponseJson) (\<lambda>_. lift (resp_json response)))
       (\<lambda>e. case e of
              ValueError args \<Rightarrow> Some (raise e)
            | MemoryError \<Rightarrow> Some (bind (emit SupervisorReload) (\<lambda>_. raise ReloadException))
            | other \<Rightarrow> None)"

definition show_image2 :: "world \<Rightarrow> pyval \<Rightarrow> (portal, unit) prog" where
  "show_image2 w json_out =
     bind get_self (\<lambda>p.
     try_except
       (bind (call_val w (ProcessImage json_out (sd_check (p_peripherals p)))) (\<lambda>result.
        bind (lift (unpack2 result)) (\<lambda>pair.
        if truthy (fst pair) \<and> snd pair \<noteq> PNone
        then call_unit w (GraphicsSetBackground (fst pair) (snd pair))
        else ret ())))
       (\<lambda>e. case e of
              ValueError args \<Rightarrow>
                Some (bind (lift (args0 args)) (\<lambda>reason.
                      if p_default_bg p \<noteq> PNone
                      then call_unit w (GraphicsSetBackground (p_default_bg p) PNone)
                      else ret ()))
            | other \<Rightarrow> None))"

definition extract_values2 ::
    "world \<Rightarrow> pyval \<Rightarrow> response \<Rightarrow> pyval \<Rightarrow> pyval \<Rightarrow> (portal, pyval option) prog" where
  "extract_values2 w content_type response json_out path =
     bind get_self (\<lambda>p.
       if py_eq content_type (CONTENT_JSON w)
       then bind (call_val w (ProcessJson json_out path)) (\<lambda>v. ret (Some v))
       else if py_eq content_type (CONTENT_TEXT w)
       then bind (call_val w (ProcessText (resp_text response) (p_regexp_path p)))
              (\<lambda>v. ret (Some v))
       else ret None)"

definition refresh2 :: "pyval \<Rightarrow> (portal, unit) prog" where
  "refresh2 refresh_url =
     (if truthy refresh_url then modify_self (\<lambda>p. p\<lparr>p_url := refresh_url\<rparr>) else ret ())"

definition notify2 :: "world \<Rightarrow> pyval option \<Rightarrow> (portal, pyval option) prog" where
  "notify2 w values =
     bind get_self (\<lambda>p.
       if truthy (p_success_callback p)
       then bind (lift (bound values)) (\<lambda>v.
            bind (call_user w (SuccessCallback v) v) (\<lambda>answer. ret (Some (snd answer))))
       else ret values)"

definition fill_text_labels :: "world \<Rightarrow> pyval option \<Rightarrow> (portal, pyval) prog" where
  "fill_text_labels w values =
     bind (lift (bound values)) (\<lambda>v.
     bind (call_user w (FillTextLabels v) v) (\<lambda>answer. ret (snd answer)))"

definition process_response2 :: "world \<Rightarrow> response \<Rightarrow> (portal, pyval) prog" where
  "process_response2 w response =
     bind get_self (\<lambda>p.
     bind (call_val w CheckResponse) (\<lambda>content_type.
     bind (ret (if py_eq content_type (CONTENT_JSON w) then wrap_single_path (p_json_path p)
                else p_json_path p)) (\<lambda>path.
     bind (if py_eq content_type (CONTENT_JSON w) then parse_json2 response else ret PNone)
       (\<lambda>json_out.
     bind (show_image2 w json_out) (\<lambda>_.
     bind (extract_values2 w content_type response json_out path) (\<lambda>values.
     bind (notify2 w values) (\<lambda>values.
     bind (fill_text_labels w values) (\<lambda>values.
     bind (emit Release) (\<lambda>_.
     ret values)))))))))"

definition fetch2_body :: "world \<Rightarrow> pyval \<Rightarrow> (portal, pyval) prog" where
  "fetch2_body w timeout =
     bind get_self (\<lambda>p.
     bind (call_resp w (NetworkFetch (p_url p) timeout)) (process_response2 w))"

definition fetch2 :: "world \<Rightarrow> pyval \<Rightarrow> pyval \<Rightarrow> (portal, pyval) prog" where
  "fetch2 w refresh_url timeout = bind (refresh2 refresh_url) (\<lambda>_. fetch2_body w timeout)"


section \<open>Order of steps\<close>

text \<open>
  A phase function gives some steps a number. A list of steps is \<open>staged\<close> between \<open>lo\<close>
  and \<open>hi\<close> when the numbers of its numbered steps never decrease and stay in that range;
  a program \<open>runs_within\<close> the range when every run of it adds such a list to the history
  and leaves \<^verbatim>\<open>self\<close> as it was.
\<close>

definition phases :: "(step \<Rightarrow> nat option) \<Rightarrow> step list \<Rightarrow> nat list" where
  "phases ph es = concat (map (\<lambda>e. case ph e of None \<Rightarrow> [] | Some k \<Rightarrow> [k]) es)"

definition staged :: "(step \<Rightarrow> nat option) \<Rightarrow> nat \<Rightarrow> nat \<Rightarrow> step list \<Rightarrow> bool" where
  "staged ph lo hi es = (sorted (phases ph es) \<and> list_all (\<lambda>k. lo \<le> k \<and> k \<le> hi) (phases ph es))"

definition runs_within :: "(step \<Rightarrow> nat option) \<Rightarrow> nat \<Rightarrow> nat \<Rightarrow> ('s, 'a) prog \<Rightarrow> bool" where
  "runs_within ph lo hi p =
     (\<forall>m. self (snd (p m)) = self m \<and>
          (\<exists>es. hist (snd (p m)) = hist m @ es \<and> staged ph lo hi es))"

text \<open>
  The order the specification gives for \<^verbatim>\<open>fetch\<close>: the request for the data (0), JSON
  parsing and JSON-path traversal (1), image conversion, download and background update (2),
  the text labels (3). Steps it does not mention carry no number.
\<close>

fun claimed_phase :: "step \<Rightarrow> nat option" where
  "claimed_phase OpenLocalFile = Some 0"
| "claimed_phase (RequestsGet u h) = Some 0"
| "claimed_phase (NetworkFetch u t) = Some 0"
| "claimed_phase ResponseJson = Some 1"
| "claimed_phase (JsonTraverse path) = Some 1"
| "claimed_phase (ReSearch regexp) = Some 1"
| "claimed_phase (ProcessJson j path) = Some 1"
| "claimed_phase (ProcessText t regexp) = Some 1"
| "claimed_phase (Wget u f c) = Some 2"
| "claimed_phase (SetBackground f pos) = Some 2"
| "claimed_phase (ProcessImage j sd) = Some 2"
| "claimed_phase (GraphicsSetBackground f pos) = Some 2"
| "claimed_phase (TextTransform i v) = Some 3"
| "claimed_phase (SetText s i) = Some 3"
| "claimed_phase (FillTextLabels v) = Some 3"
| "claimed_phase other = None"

definition claimed_order :: "step list \<Rightarrow> bool" where
  "claimed_order es = sorted (phases claimed_phase es)"

text \<open>
  Where the monolithic \<^verbatim>\<open>fetch\<close> drops the response and the parsed JSON: the request, the
  JSON parsing, the traversals and the regular expressions (0) are behind it, the release is
  (1), and the image download, the success callback and the text labels (2) are ahead.
  \<^verbatim>\<open>set_background\<close> carries no number here: the default background can be set on either
  side of the release.
\<close>

fun release_phase :: "step \<Rightarrow> nat option" where
  "release_phase OpenLocalFile = Some 0"
| "release_phase ConnectEsp = Some 0"
| "release_phase (NeoFill c) = Some 0"
| "release_phase (RequestsGet u h) = Some 0"
| "release_phase ResponseJson = Some 0"
| "release_phase SupervisorReload = Some 0"
| "release_phase (JsonTraverse path) = Some 0"
| "release_phase (ReSearch regexp) = Some 0"
| "release_phase Release = Some 1"
| "release_phase (Wget u f c) = Some 2"
| "release_phase (SuccessCallback v) = Some 2"
| "release_phase (TextTransform i v) = Some 2"
| "release_phase (SetText s i) = Some 2"
| "release_phase other = None"

definition release_order :: "step list \<Rightarrow> bool" where
  "release_order es = sorted (phases release_phase es)"

text \<open>The order of the package's \<^verbatim>\<open>fetch\<close>: request (0), JSON parsing (1), image and
  background (2), extraction of the values (3), text labels (4), release (5).\<close>

fun package_phase :: "step \<Rightarrow> nat option" where
  "package_phase (NetworkFetch u t) = Some 0"
| "package_phase (RequestsGet u h) = Some 0"
| "package_phase ResponseJson = Some 1"
| "package_phase (ProcessImage j sd) = Some 2"
| "package_phase (GraphicsSetBackground f pos) = Some 2"
| "package_phase (ProcessJson j path) = Some 3"
| "package_phase (ProcessText t regexp) = Some 3"
| "package_phase (FillTextLabels v) = Some 4"
| "package_phase Release = Some 5"
| "package_phase other = None"

definition package_order :: "step list \<Rightarrow> bool" where
  "package_order es = sorted (phases package_phase es)"

text \<open>The requests for the data.\<close>

fun data_request :: "step \<Rightarrow> nat option" where
  "data_request (RequestsGet u h) = Some 1"
| "data_request (NetworkFetch u t) = Some 1"
| "data_request other = None"

definition data_requests :: "step list \<Rightarrow> step list" where
  "data_requests es = filter (\<lambda>e. data_request e \<noteq> None) es"

section \<open>Sample runs\<close>

text \<open>
  A server that answers \<^verbatim>\<open>[21, 22]\<close>; every other call returns. In the package the
  network object takes the answer for JSON, has a picture to show and extracts the first
  number. \<^verbatim>\<open>re.search\<close> knows one pattern, \<^verbatim>\<open>.(..).*\<close>, which on a text of one line matches
  the whole of it, group 1 being its second and third characters.
\<close>

definition demo_response :: response where
  "demo_response = \<lparr>resp_text = ''[21, 22]'',
                     resp_json = Inr (PList [PNum (PyInt 21), PNum (PyInt 22)])\<rparr>"

definition demo_world :: world where
  "demo_world = calm_world\<lparr>
     reply_resp := (\<lambda>h. Returns demo_response),
     reply_val := (\<lambda>h. case last h of
                     CheckResponse \<Rightarrow> Returns (PNum (PyInt 2))
                   | ProcessImage j sd \<Rightarrow>
                       Returns (PTuple [PStr ''/cache.bmp'',
                                        PTuple [PNum (PyInt 0), PNum (PyInt 0)]])
                   | ProcessJson j path \<Rightarrow> Returns (PList [PNum (PyInt 21)])
                   | other \<Rightarrow> Returns PNone),
     re_search := (\<lambda>regexp text.
        if regexp = PStr ''.(..).*'' \<and> 3 \<le> length text \<and> CHR 0x0A \<notin> set text
        then Inr (Some [PStr text, PStr (take 2 (drop 1 text))])
        else Inr None)\<rparr>"

definition demo_portal :: pyportal where
  "demo_portal = \<lparr>backlight = PObject 0,
     url = PStr ''http://example.com/data'', headers = PNone,
     json_path = PList [PList [PNum (PyInt 0)]], regexp_path = PNone,
     image_json_path = PNone, image_url_path = PNone, image_resize = PNone,
     image_position = PNone, default_bg = PNum (PyInt 0), uselocal = False,
     neopix = PNone, sd_card = PNone, success_callback = PNone,
     text_slots = [\<lparr>has_transform = False, wrap = 0\<rparr>]\<rparr>"

definition on_line :: "pyportal machine" where
  "on_line = \<lparr>self = demo_portal, hist = []\<rparr>"

definition off_line :: "pyportal machine" where
  "off_line = \<lparr>self = demo_portal\<lparr>uselocal := True\<rparr>, hist = []\<rparr>"

definition demo_package :: "portal machine" where
  "demo_package = \<lparr>self = \<lparr>backlight = PObject 0,
       p_url = PStr ''http://example.com/data'', p_json_path = PList [PNum (PyInt 0)],
       p_regexp_path = PNone, p_default_bg = PNum (PyInt 0), p_success_callback = PNone,
       p_peripherals = \<lparr>speaker_enable = PObject 1, audio = PObject 2, sdcard = PNone\<rparr>\<rparr>,
     hist = []\<rparr>"

text \<open>A portal that also shows a picture; the account for the image converter is set up.\<close>

definition photo_world :: world where
  "photo_world = demo_world\<lparr>
     secrets := [(''aio_username'', PStr ''user''), (''aio_key'', PStr ''key'')],
     percent_format := (\<lambda>f args. Inr (PStr ''http://converter/picture''))\<rparr>"

definition photo_frame :: "pyportal machine" where
  "photo_frame = \<lparr>self = demo_portal\<lparr>
       image_url_path := PStr ''http://example.com/picture'',
       image_resize := PTuple [PNum (PyInt 320), PNum (PyInt 240)],
       image_position := PTuple [PNum (PyInt 0), PNum (PyInt 0)]\<rparr>,
     hist = []\<rparr>"





text \<open>
  A server that answers with a JSON object holding a temperature and no picture, and two
  portals that look for the address of a picture in it: under the key \<^verbatim>\<open>image\<close>, and at
  index 0.
\<close>

definition weather_response :: response where
  "weather_response = \<lparr>resp_text = [CHR ''{'', CHR 0x22] @ ''temp'' @ [CHR 0x22] @ '': 21}'',
                        resp_json = Inr (PDict [(''temp'', PNum (PyInt 21))])\<rparr>"

definition weather_world :: world where
  "weather_world = demo_world\<lparr>reply_resp := (\<lambda>h. Returns weather_response)\<rparr>"

definition weather_station :: "pyportal machine" where
  "weather_station = \<lparr>self = demo_portal\<lparr>
       json_path := PTuple [PList [PStr ''temp'']],
       image_json_path := PList [PStr ''image'']\<rparr>,
     hist = []\<rparr>"

definition weather_station_by_index :: "pyportal machine" where
  "weather_station_by_index = \<lparr>self = demo_portal\<lparr>
       json_path := PTuple [PList [PStr ''temp'']],
       image_json_path := PList [PNum (PyInt 0)]\<rparr>,
     hist = []\<rparr>"

text \<open>A success callback that appends a zero to the list it is handed.\<close>

definition appending_world :: world where
  "appending_world = demo_world\<lparr>
     left_by := (\<lambda>h v. case last h of
                   SuccessCallback x \<Rightarrow>
                     (case v of PList xs \<Rightarrow> PList (xs @ [PNum (PyInt 0)]) | other \<Rightarrow> v)
                 | other \<Rightarrow> v)\<rparr>"

definition with_callback :: "pyportal machine" where
  "with_callback = \<lparr>self = demo_portal\<lparr>success_callback := PObject 7\<rparr>, hist = []\<rparr>"

section \<open>Properties of JSON traversal\<close>

lemma traverse_loop_append:
  "traverse_loop j (ks @ [k]) =
     (case traverse_loop j ks of Inl e \<Rightarrow> Inl e | Inr v \<Rightarrow> getitem v k)"
  by (induction ks arbitrary: j) (auto split: sum.splits)

lemma traverse_loop_nested: "traverse_loop j ks = nested_subscript j (rev ks)"
proof (induction ks rule: rev_induct)
  case Nil
  show ?case by simp
next
  case (snoc k ks)
  then show ?case by (simp add: traverse_loop_append)
qed

text \<open>Subscripts of a dictionary: a string is looked up, a missing or non-string hashable
  key raises \<^verbatim>\<open>KeyError\<close> with the key as argument, an unhashable key \<^verbatim>\<open>TypeError\<close>.\<close>

lemma getitem_dict:
  "getitem (PDict kvs) (PStr k) =
     (case map_of kvs k of Some v \<Rightarrow> Inr v | None \<Rightarrow> Inl (KeyError [PStr k]))"
  "getitem (PDict kvs) (PNum n) = Inl (KeyError [PNum n])"
  "getitem (PDict kvs) (PTuple [PStr k]) = Inl (KeyError [PTuple [PStr k]])"
  "getitem (PDict kvs) (PList ks) = Inl TypeError"
  "getitem (PDict kvs) (PTuple [PList ks]) = Inl TypeError"
  by (simp_all add: lookup_def)

text \<open>
  C2. For every JSON value \<open>j\<close> and every path \<open>[k0, ..., kn]\<close>, a list or a tuple,
  \<open>_json_traverse\<close> returns what the nested subscript expression \<open>j[k0][k1]...[kn]\<close>
  evaluates to, the first failing subscript raising in both, and for the empty path it
  returns \<open>j\<close> itself.
\<close>

theorem json_traverse_nested:
  "json_traverse j (PList []) = Inr j \<and>
   json_traverse j (PList ks) = nested_subscript j (rev ks) \<and>
   json_traverse j (PTuple []) = Inr j \<and>
   json_traverse j (PTuple ks) = nested_subscript j (rev ks)"
  by (simp add: json_traverse_def traverse_loop_nested)

section \<open>Properties of word wrapping\<close>

lemma split_on_not_Nil: "split_on d s \<noteq> []"
  by (induction s) (auto split: list.splits)

lemma split_on_pieces: "w \<in> set (split_on d s) \<Longrightarrow> d \<notin> set w"
  by (induction s arbitrary: w) (auto split: if_splits list.splits)

lemma split_on_no_sep: "d \<notin> set w \<Longrightarrow> split_on d w = [w]"
  by (induction w) auto

lemma split_on_append: "split_on d (a @ d # b) = split_on d a @ split_on d b"
proof (induction a)
  case Nil
  show ?case by simp
next
  case (Cons c a)
  obtain w ws where "split_on d a = w # ws"
    using split_on_not_Nil [of d a] by (cases "split_on d a") auto
  with Cons show ?case by simp
qed

lemma words_of_Nil: "words_of [] = []"
  by (simp add: words_of_def)

lemma words_of_word: "CHR '' '' \<notin> set w \<Longrightarrow> words_of w = (if w = [] then [] else [w])"
  by (simp add: words_of_def split_on_no_sep)

lemma words_of_append: "words_of (a @ CHR '' '' # b) = words_of a @ words_of b"
  by (simp add: words_of_def split_on_append)

lemma words_of_space: "words_of (CHR '' '' # b) = words_of b"
  by (simp add: words_of_def)

lemma words_of_many: "1 < length (words_of l) \<Longrightarrow> CHR '' '' \<in> set l"
  by (rule ccontr) (simp add: words_of_word split: if_splits)

lemma wrap_loop_words:
  "(\<forall>w \<in> set ws. CHR '' '' \<notin> set w) \<Longrightarrow> wrap_loop n ws ls l = (ls', l') \<Longrightarrow>
   concat (map words_of ls') @ words_of l' =
   concat (map words_of ls) @ words_of l @ filter (\<lambda>w. w \<noteq> []) ws"
proof (induction ws arbitrary: ls l)
  case Nil
  then show ?case by simp
next
  case (Cons w ws)
  show ?case
  proof (cases "int (length (l @ '' '' @ w)) \<le> n")
    case True
    with Cons.prems have "wrap_loop n ws ls (l @ '' '' @ w) = (ls', l')" by simp
    with Cons.IH [of ls "l @ '' '' @ w"] Cons.prems(1)
    show ?thesis by (simp add: words_of_append words_of_word)
  next
    case False
    with Cons.prems have "wrap_loop n ws (ls @ [l]) w = (ls', l')" by simp
    with Cons.IH [of "ls @ [l]" w] Cons.prems(1)
    show ?thesis by (simp add: words_of_word)
  qed
qed

lemma wrap_loop_first:
  "wrap_loop n ws ls l = (ls', l') \<Longrightarrow> first_ok ls l \<Longrightarrow> first_ok ls' l'"
proof (induction ws arbitrary: ls l)
  case Nil
  then show ?case by simp
next
  case (Cons w ws)
  show ?case
  proof (cases "int (length (l @ '' '' @ w)) \<le> n")
    case True
    with Cons.prems have r: "wrap_loop n ws ls (l @ '' '' @ w) = (ls', l')" by simp
    from Cons.prems(2) have "first_ok ls (l @ '' '' @ w)"
      by (auto simp: first_ok_def lead_def split: list.splits)
    with Cons.IH [OF r] show ?thesis .
  next
    case False
    with Cons.prems have r: "wrap_loop n ws (ls @ [l]) w = (ls', l')" by simp
    from Cons.prems(2) have "first_ok (ls @ [l]) w"
      by (auto simp: first_ok_def lead_def split: list.splits)
    with Cons.IH [OF r] show ?thesis .
  qed
qed

lemma wrap_loop_fits:
  "(\<forall>w \<in> set ws. CHR '' '' \<notin> set w) \<Longrightarrow> wrap_loop n ws ls l = (ls', l') \<Longrightarrow>
   (\<forall>x \<in> set ls. fits n x) \<Longrightarrow> fits n l \<Longrightarrow> (\<forall>x \<in> set ls'. fits n x) \<and> fits n l'"
proof (induction ws arbitrary: ls l)
  case Nil
  then show ?case by simp
next
  case (Cons w ws)
  show ?case
  proof (cases "int (length (l @ '' '' @ w)) \<le> n")
    case True
    with Cons.prems have r: "wrap_loop n ws ls (l @ '' '' @ w) = (ls', l')" by simp
    from True have "fits n (l @ '' '' @ w)" by (simp add: fits_def)
    with Cons.IH [OF _ r] Cons.prems show ?thesis by simp
  next
    case False
    with Cons.prems have r: "wrap_loop n ws (ls @ [l]) w = (ls', l')" by simp
    from Cons.prems(1) have "fits n w" by (simp add: fits_def)
    with Cons.IH [OF _ r] Cons.prems show ?thesis by simp
  qed
qed

lemma wrap_loop_chars:
  "wrap_loop n ws ls l = (ls', l') \<Longrightarrow>
   set (concat ls') \<union> set l' \<subseteq> set (concat ls) \<union> set l \<union> set (concat ws) \<union> {CHR '' ''}"
proof (induction ws arbitrary: ls l)
  case Nil
  then show ?case by auto
next
  case (Cons w ws)
  show ?case
  proof (cases "int (length (l @ '' '' @ w)) \<le> n")
    case True
    with Cons.prems have r: "wrap_loop n ws ls (l @ '' '' @ w) = (ls', l')" by simp
    from Cons.IH [OF r] show ?thesis by auto
  next
    case False
    with Cons.prems have r: "wrap_loop n ws (ls @ [l]) w = (ls', l')" by simp
    from Cons.IH [OF r] show ?thesis by auto
  qed
qed

lemma concat_split_on: "concat (split_on d s) = filter (\<lambda>c. c \<noteq> d) s"
proof (induction s)
  case Nil
  show ?case by simp
next
  case (Cons c s)
  obtain w ws where "split_on d s = w # ws"
    using split_on_not_Nil [of d s] by (cases "split_on d s") auto
  with Cons show ?case by auto
qed

lemma wrap_loop_not_empty:
  "wrap_loop n ws ls l = (ls', l') \<Longrightarrow> ws \<noteq> [] \<or> ls \<noteq> [] \<or> l \<noteq> [] \<Longrightarrow>
   ls' \<noteq> [] \<or> l' \<noteq> []"
proof (induction ws arbitrary: ls l)
  case Nil
  then show ?case by simp
next
  case (Cons w ws)
  show ?case
  proof (cases "int (length (l @ '' '' @ w)) \<le> n")
    case True
    with Cons.prems have r: "wrap_loop n ws ls (l @ '' '' @ w) = (ls', l')" by simp
    from Cons.IH [OF r] show ?thesis by simp
  next
    case False
    with Cons.prems have r: "wrap_loop n ws (ls @ [l]) w = (ls', l')" by simp
    from Cons.IH [OF r] show ?thesis by simp
  qed
qed

lemma strip_newlines_idem: "strip_newlines (strip_newlines s) = strip_newlines s"
  by (induction s) (simp_all add: strip_newlines_def)

lemma strip_newlines_chars: "CHR 0x0A \<notin> set (strip_newlines s) \<and> CHR 0x0D \<notin> set (strip_newlines s)"
  by (simp add: strip_newlines_def)

lemma words_of_lead: "lead l \<Longrightarrow> words_of (drop (Suc 0) l) = words_of l"
  by (cases l) (simp_all add: lead_def words_of_space)

lemma fits_drop: "fits n l \<Longrightarrow> fits n (drop (Suc 0) l)"
  unfolding fits_def by (cases l) auto

text \<open>
  C8. For every string and every \<open>max_chars\<close> (in particular every \<open>max_chars \<ge> 1\<close>),
  \<open>wrap_nicely\<close> returns a list of lines, never raising; the result is that of the string
  with its newline and carriage-return characters removed, and no line holds either
  character; the words of the lines, taken in order, are the words of the stripped string; and
  every line of more than one word is at most \<open>max_chars\<close> characters long.
\<close>

theorem wrap_nicely_wraps:
  "\<exists>lines. wrap_nicely string max_chars = Inr lines \<and>
     wrap_nicely (strip_newlines string) max_chars = Inr lines \<and>
     (\<forall>l \<in> set lines. CHR 0x0A \<notin> set l \<and> CHR 0x0D \<notin> set l) \<and>
     concat (map words_of lines) = words_of (strip_newlines string) \<and>
     (\<forall>l \<in> set lines. 1 < length (words_of l) \<longrightarrow> int (length l) \<le> max_chars)"
proof -
  define s where "s = strip_newlines string"
  define ws where "ws = split_on CHR '' '' s"
  obtain ls l where run: "wrap_loop max_chars ws [] [] = (ls, l)"
    by (cases "wrap_loop max_chars ws [] []") auto
  define full where "full = (if l \<noteq> [] then ls @ [l] else ls)"
  have ws_ne: "ws \<noteq> []" by (simp add: ws_def split_on_not_Nil)
  have ws_sp: "\<forall>w \<in> set ws. CHR '' '' \<notin> set w"
    using split_on_pieces [of _ "CHR '' ''" s] by (auto simp: ws_def)
  have "ls \<noteq> [] \<or> l \<noteq> []"
    using wrap_loop_not_empty [OF run] ws_ne by simp
  then have "full \<noteq> []" by (auto simp: full_def)
  then obtain x xs where full: "full = x # xs" by (cases full) auto
  define lines where "lines = drop 1 x # xs"
  have res: "wrap_nicely string max_chars = Inr lines"
    using run full by (simp add: wrap_nicely_def s_def [symmetric] ws_def [symmetric]
        full_def [symmetric] lines_def)
  have "wrap_nicely (strip_newlines string) max_chars = wrap_nicely string max_chars"
    by (simp add: wrap_nicely_def strip_newlines_idem)
  with res have res': "wrap_nicely (strip_newlines string) max_chars = Inr lines"
    by simp
  have "first_ok ls l"
    using wrap_loop_first [OF run] by (simp add: first_ok_def lead_def)
  then have lead: "lead x"
    using full by (auto simp: first_ok_def full_def lead_def split: list.splits if_splits)
  have "concat (map words_of ls) @ words_of l = filter (\<lambda>w. w \<noteq> []) ws"
    using wrap_loop_words [OF ws_sp run] by (simp add: words_of_Nil)
  moreover have "concat (map words_of full) = concat (map words_of ls) @ words_of l"
    by (simp add: full_def words_of_Nil)
  ultimately have "concat (map words_of full) = words_of s"
    by (simp add: words_of_def ws_def)
  then have words: "concat (map words_of lines) = words_of (strip_newlines string)"
    using lead by (simp add: full lines_def words_of_lead s_def)
  have "(\<forall>x \<in> set ls. fits max_chars x) \<and> fits max_chars l"
    using wrap_loop_fits [OF ws_sp run] by (simp add: fits_def)
  then have "\<forall>y \<in> set full. fits max_chars y" by (auto simp: full_def)
  then have "\<forall>y \<in> set lines. fits max_chars y"
    by (auto simp: full lines_def fits_drop)
  then have len: "\<forall>l \<in> set lines. 1 < length (words_of l) \<longrightarrow> int (length l) \<le> max_chars"
    using words_of_many by (auto simp: fits_def)
  have "set (concat ls) \<union> set l \<subseteq> set (concat ws) \<union> {CHR '' ''}"
    using wrap_loop_chars [OF run] by simp
  then have "set (concat full) \<subseteq> set s \<union> {CHR '' ''}"
    by (auto simp: full_def ws_def concat_split_on)
  moreover have "set (concat lines) \<subseteq> set (concat full)"
    using set_drop_subset [of 1 x] by (auto simp: full lines_def)
  ultimately have "set (concat lines) \<subseteq> set s \<union> {CHR '' ''}" by blast
  then have nl: "\<forall>l \<in> set lines. CHR 0x0A \<notin> set l \<and> CHR 0x0D \<notin> set l"
    using strip_newlines_chars [of string] by (auto simp: s_def)
  from res res' nl words len show ?thesis by blast
qed

theorem wrap_nicely_wraps_witness:
  "wrap_nicely (''hello world'' @ [CHR 0x0A] @ '' this is'') 11 = Inr [''hello'', ''world this'', ''is''] \<and>
   1 < length (words_of ''world this'') \<and> int (length ''world this'') \<le> 11 \<and>
   concat (map words_of [''hello'', ''world this'', ''is'']) =
     words_of (strip_newlines (''hello world'' @ [CHR 0x0A] @ '' this is''))"
proof -
  have e: "wrap_nicely (''hello world'' @ [CHR 0x0A] @ '' this is'') 11 = Inr [''hello'', ''world this'', ''is'']"
    by code_simp
  have w: "1 < length (words_of ''world this'')" by code_simp
  from wrap_nicely_wraps [of "''hello world'' @ [CHR 0x0A] @ '' this is''" 11] e w
  show ?thesis by auto
qed

section \<open>Properties of the ESP32 bring-up\<close>

lemma firmware_retries_step:
  "firmware_retries w (Suc n) m =
     (case reply_val w (hist m @ [FirmwareVersion]) of
        Returns v \<Rightarrow> (Returns (), m\<lparr>hist := hist m @ [FirmwareVersion]\<rparr>)
      | Hangs \<Rightarrow> (Hangs, m\<lparr>hist := hist m @ [FirmwareVersion]\<rparr>)
      | Raises e \<Rightarrow>
          if e \<noteq> RuntimeError then (Raises e, m\<lparr>hist := hist m @ [FirmwareVersion]\<rparr>)
          else (case reply_unit w (hist m @ [FirmwareVersion, Sleep 1]) of
                  Raises e' \<Rightarrow> (Raises e', m\<lparr>hist := hist m @ [FirmwareVersion, Sleep 1]\<rparr>)
                | Hangs \<Rightarrow> (Hangs, m\<lparr>hist := hist m @ [FirmwareVersion, Sleep 1]\<rparr>)
                | Returns u \<Rightarrow>
                    (case reply_unit w (hist m @ failed_attempt) of
                       Raises e' \<Rightarrow> (Raises e', m\<lparr>hist := hist m @ failed_attempt\<rparr>)
                     | Hangs \<Rightarrow> (Hangs, m\<lparr>hist := hist m @ failed_attempt\<rparr>)
                     | Returns u' \<Rightarrow> firmware_retries w n (m\<lparr>hist := hist m @ failed_attempt\<rparr>))))"
  by (simp add: bind_def try_except_def call_val_def call_unit_def ret_def failed_attempt_def
      split: outcome.splits)

declare firmware_retries.simps(2) [simp del]

lemma attempts_simps:
  "attempts [] = 0"
  "attempts [FirmwareVersion] = 1"
  "attempts [FirmwareVersion, Sleep 1] = 1"
  "attempts (failed_attempt @ es) = Suc (attempts es)"
  by (simp_all add: attempts_def failed_attempt_def)

lemma firmware_retries_hist:
  "\<exists>es. hist (snd (firmware_retries w n m)) = hist m @ es \<and> attempts es \<le> n"
proof (induction n arbitrary: m)
  case 0
  show ?case by (simp add: raise_def attempts_simps)
next
  case (Suc n)
  let ?m' = "m\<lparr>hist := hist m @ failed_attempt\<rparr>"
  from Suc [of ?m'] obtain es where
    es: "hist (snd (firmware_retries w n ?m')) = hist m @ failed_attempt @ es" "attempts es \<le> n"
    by auto
  have a: "hist m @ [FirmwareVersion] = hist m @ es' \<Longrightarrow> es' = [FirmwareVersion]" for es'
    by simp
  show ?case
  proof (cases "reply_val w (hist m @ [FirmwareVersion])")
    case (Returns v)
    then have "hist (snd (firmware_retries w (Suc n) m)) = hist m @ [FirmwareVersion]"
      by (simp add: firmware_retries_step)
    then show ?thesis using attempts_simps(2) by fastforce
  next
    case Hangs
    then have "hist (snd (firmware_retries w (Suc n) m)) = hist m @ [FirmwareVersion]"
      by (simp add: firmware_retries_step)
    then show ?thesis using attempts_simps(2) by fastforce
  next
    case (Raises e)
    show ?thesis
    proof (cases "e = RuntimeError")
      case False
      with Raises have "hist (snd (firmware_retries w (Suc n) m)) = hist m @ [FirmwareVersion]"
        by (simp add: firmware_retries_step)
      then show ?thesis using attempts_simps(2) by fastforce
    next
      case True
      show ?thesis
      proof (cases "reply_unit w (hist m @ [FirmwareVersion, Sleep 1]) = Returns ()")
        case False
        with Raises True
        have "hist (snd (firmware_retries w (Suc n) m)) = hist m @ [FirmwareVersion, Sleep 1]"
          by (simp add: firmware_retries_step split: outcome.splits)
        then show ?thesis using attempts_simps(3) by fastforce
      next
        case sl: True
        show ?thesis
        proof (cases "reply_unit w (hist m @ failed_attempt) = Returns ()")
          case False
          with Raises True sl
          have "hist (snd (firmware_retries w (Suc n) m)) = hist m @ failed_attempt @ []"
            by (simp add: firmware_retries_step split: outcome.splits)
          moreover have "attempts (failed_attempt @ []) \<le> Suc n"
            unfolding attempts_simps by simp
          ultimately show ?thesis by blast
        next
          case rs: True
          with Raises True sl
          have "hist (snd (firmware_retries w (Suc n) m)) = hist m @ failed_attempt @ es"
            by (simp add: firmware_retries_step es)
          moreover have "attempts (failed_attempt @ es) \<le> Suc n"
            unfolding attempts_simps using es(2) by simp
          ultimately show ?thesis by blast
        qed
      qed
    qed
  qed
qed

lemma firmware_retries_attempts: "attempts (steps_of (firmware_retries w n) m) \<le> n"
  using firmware_retries_hist [of w n m] by (auto simp: steps_of_def)

lemma firmware_retries_all_fail:
  "fails w (hist m) n \<Longrightarrow>
   firmware_retries w n m =
     (Raises RuntimeError, m\<lparr>hist := hist m @ concat (replicate n failed_attempt)\<rparr>)"
proof (induction n arbitrary: m)
  case 0
  show ?case by (simp add: raise_def)
next
  case (Suc n)
  let ?m' = "m\<lparr>hist := hist m @ failed_attempt\<rparr>"
  from Suc.prems have "fails w (hist ?m') n" by simp
  from Suc.IH [OF this] Suc.prems show ?case
    by (simp add: firmware_retries_step)
qed

lemma firmware_retries_success:
  "k < n \<Longrightarrow> fails w (hist m) k \<Longrightarrow>
   reply_val w (hist m @ concat (replicate k failed_attempt) @ [FirmwareVersion]) = Returns v \<Longrightarrow>
   firmware_retries w n m =
     (Returns (), m\<lparr>hist := hist m @ concat (replicate k failed_attempt) @ [FirmwareVersion]\<rparr>)"
proof (induction k arbitrary: m n)
  case 0
  then obtain n' where "n = Suc n'" by (cases n) auto
  with 0 show ?case by (simp add: firmware_retries_step)
next
  case (Suc k)
  then obtain n' where n: "n = Suc n'" "k < n'" by (cases n) auto
  let ?m' = "m\<lparr>hist := hist m @ failed_attempt\<rparr>"
  from Suc.prems have f: "fails w (hist ?m') k" by simp
  from Suc.prems have r: "reply_val w (hist ?m' @ concat (replicate k failed_attempt) @ [FirmwareVersion]) = Returns v"
    by simp
  from Suc.IH [OF n(2) f r] Suc.prems show ?case
    by (simp add: firmware_retries_step n)
qed

text \<open>
  C4. The firmware query is made at most three times. If the first three queries raise
  \<^verbatim>\<open>RuntimeError\<close> (each followed by a sleep and a reset that return), the loop has made
  exactly three attempts, each followed by the sleep and the reset, and initialization raises
  \<^verbatim>\<open>RuntimeError\<close>. If the query \<open>k+1\<close> (\<open>k < 3\<close>) is the first to answer, the loop
  returns after \<open>k\<close> failed attempts and that query: the remaining attempts are skipped.
\<close>

theorem firmware_retries_three:
  "attempts (steps_of (firmware_retries w 3) m) \<le> 3 \<and>
   (fails w (hist m) 3 \<longrightarrow>
      result_of (firmware_retries w 3) m = Raises RuntimeError \<and>
      result_of (init_esp w) m = Raises RuntimeError \<and>
      steps_of (firmware_retries w 3) m = failed_attempt @ failed_attempt @ failed_attempt) \<and>
   (\<forall>k v. k < 3 \<and> fails w (hist m) k \<and>
      reply_val w (hist m @ concat (replicate k failed_attempt) @ [FirmwareVersion]) = Returns v \<longrightarrow>
      result_of (firmware_retries w 3) m = Returns () \<and>
      steps_of (firmware_retries w 3) m = concat (replicate k failed_attempt) @ [FirmwareVersion])"
proof (intro conjI impI allI)
  show "attempts (steps_of (firmware_retries w 3) m) \<le> 3"
    by (rule firmware_retries_attempts)
next
  assume f: "fails w (hist m) 3"
  note run = firmware_retries_all_fail [OF f]
  show "result_of (firmware_retries w 3) m = Raises RuntimeError"
    using run by (simp add: result_of_def)
  show "result_of (init_esp w) m = Raises RuntimeError"
    using run by (simp add: init_esp_def bind_def result_of_def)
  show "steps_of (firmware_retries w 3) m = failed_attempt @ failed_attempt @ failed_attempt"
    using run by (simp add: steps_of_def numeral_3_eq_3)
next
  fix k v
  assume h: "k < 3 \<and> fails w (hist m) k \<and>
      reply_val w (hist m @ concat (replicate k failed_attempt) @ [FirmwareVersion]) = Returns v"
  then have run: "firmware_retries w 3 m =
     (Returns (), m\<lparr>hist := hist m @ concat (replicate k failed_attempt) @ [FirmwareVersion]\<rparr>)"
    using firmware_retries_success [of k 3 w m v] by simp
  show "result_of (firmware_retries w 3) m = Returns ()"
    using run by (simp add: result_of_def)
  show "steps_of (firmware_retries w 3) m = concat (replicate k failed_attempt) @ [FirmwareVersion]"
    using run by (simp add: steps_of_def)
qed

theorem firmware_retries_three_witness:
  "fails dead_esp (hist fresh) 3 \<and>
   result_of (init_esp dead_esp) fresh = Raises RuntimeError \<and>
   steps_of (firmware_retries dead_esp 3) fresh = failed_attempt @ failed_attempt @ failed_attempt \<and>
   fails slow_esp (hist fresh) 2 \<and>
   reply_val slow_esp (hist fresh @ concat (replicate 2 failed_attempt) @ [FirmwareVersion])
     = Returns (PStr ''1.2.2'') \<and>
   result_of (firmware_retries slow_esp 3) fresh = Returns () \<and>
   steps_of (firmware_retries slow_esp 3) fresh = failed_attempt @ failed_attempt @ [FirmwareVersion]"
proof -
  have d: "fails dead_esp (hist fresh) 3"
    by (simp add: numeral_3_eq_3 dead_esp_def calm_world_def)
  have s: "fails slow_esp (hist fresh) 2"
    by (simp add: numeral_2_eq_2 slow_esp_def calm_world_def fresh_def attempts_def
        failed_attempt_def)
  have r: "reply_val slow_esp (hist fresh @ concat (replicate 2 failed_attempt) @ [FirmwareVersion])
     = Returns (PStr ''1.2.2'')"
    by (simp add: numeral_2_eq_2 slow_esp_def calm_world_def fresh_def attempts_def
        failed_attempt_def)
  from firmware_retries_three [of dead_esp fresh] d
  have 1: "result_of (init_esp dead_esp) fresh = Raises RuntimeError \<and>
   steps_of (firmware_retries dead_esp 3) fresh = failed_attempt @ failed_attempt @ failed_attempt"
    by simp
  from firmware_retries_three [of slow_esp fresh] s r
  have 2: "result_of (firmware_retries slow_esp 3) fresh = Returns () \<and>
   steps_of (firmware_retries slow_esp 3) fresh = concat (replicate 2 failed_attempt) @ [FirmwareVersion]"
    by (metis (no_types, lifting) numeral_2_eq_2 numeral_3_eq_3 lessI)
  from d s r 1 2 show ?thesis by (simp add: numeral_2_eq_2)
qed

section \<open>Properties of the SD card set-up\<close>

lemma init_sdcard_run:
  "init_sdcard w m =
     (case reply_obj w (hist m @ [SDCard]) of
        Hangs \<Rightarrow> (Hangs, m\<lparr>self := (self m)\<lparr>sdcard := PNone\<rparr>, hist := hist m @ [SDCard]\<rparr>)
      | Raises e \<Rightarrow> (if e = OSError then Returns () else Raises e,
                      m\<lparr>self := (self m)\<lparr>sdcard := PNone\<rparr>, hist := hist m @ [SDCard]\<rparr>)
      | Returns n \<Rightarrow>
         (case reply_obj w (hist m @ [SDCard, VfsFat]) of
            Hangs \<Rightarrow> (Hangs, m\<lparr>self := (self m)\<lparr>sdcard := PObject n\<rparr>, hist := hist m @ [SDCard, VfsFat]\<rparr>)
          | Raises e \<Rightarrow> (if e = OSError then Returns () else Raises e,
                      m\<lparr>self := (self m)\<lparr>sdcard := PObject n\<rparr>, hist := hist m @ [SDCard, VfsFat]\<rparr>)
          | Returns k \<Rightarrow>
             (case reply_unit w (hist m @ [SDCard, VfsFat, StorageMount]) of
                Hangs \<Rightarrow> (Hangs, m\<lparr>self := (self m)\<lparr>sdcard := PObject n\<rparr>,
                                    hist := hist m @ [SDCard, VfsFat, StorageMount]\<rparr>)
              | Raises e \<Rightarrow> (if e = OSError then Returns () else Raises e,
                      m\<lparr>self := (self m)\<lparr>sdcard := PObject n\<rparr>,
                        hist := hist m @ [SDCard, VfsFat, StorageMount]\<rparr>)
              | Returns u \<Rightarrow> (Returns (), m\<lparr>self := (self m)\<lparr>sdcard := PObject n\<rparr>,
                                    hist := hist m @ [SDCard, VfsFat, StorageMount]\<rparr>))))"
  by (simp add: init_sdcard_def bind_def try_except_def call_obj_def call_unit_def ret_def
      modify_self_def split: outcome.splits)

text \<open>
  What the code does: when \<^verbatim>\<open>__init__\<close> gets past the SD card block, \<^verbatim>\<open>sd_check\<close> tells
  whether the \<^verbatim>\<open>SDCard\<close> constructor returned, whatever happened to the mount.
\<close>

lemma sd_check_card_detected:
  "init_sdcard w m = (Returns (), m') \<Longrightarrow>
   sd_check (self m') = (\<exists>n. reply_obj w (hist m @ [SDCard]) = Returns n)"
  by (auto simp: init_sdcard_run sd_check_def split: outcome.splits if_splits)

text \<open>
  C6. A card is in the slot but \<^verbatim>\<open>storage.mount\<close> raises \<^verbatim>\<open>OSError\<close>: the error is caught
  and \<^verbatim>\<open>__init__\<close> completes, nothing was mounted, and yet \<^verbatim>\<open>sd_check()\<close> returns
  \<^verbatim>\<open>True\<close>, because \<^verbatim>\<open>self._sdcard\<close> was assigned before the failing call.
\<close>

theorem sd_check_after_failed_mount:
  "result_of (Peripherals_init unformatted_card pyportal_board True) blank_peripherals = Returns () \<and>
   steps_of (Peripherals_init unformatted_card pyportal_board True) blank_peripherals =
     [DigitalInOut ''SPEAKER_ENABLE'', SwitchToOutput False, AudioOut ''AUDIO_OUT'', SDCard, VfsFat,
      StorageMount] \<and>
   reply_unit unformatted_card
     [DigitalInOut ''SPEAKER_ENABLE'', SwitchToOutput False, AudioOut ''AUDIO_OUT'', SDCard, VfsFat,
      StorageMount]
     = Raises OSError \<and>
   sd_check (self_after (Peripherals_init unformatted_card pyportal_board True) blank_peripherals) = True"
  by (simp add: Peripherals_init_def init_sdcard_run bind_def call_obj_def call_unit_def
      modify_self_def ret_def unformatted_card_def calm_world_def pyportal_board_def
      blank_peripherals_def result_of_def steps_of_def self_after_def sd_check_def)

section \<open>Properties of the backlight\<close>

lemma clamped_cases:
  "clamped val = PyInt 0 \<or> (\<exists>r. clamped val = PyFloat (Finite r) \<and> 0 < r \<and> r \<le> 1)"
proof (cases val)
  case (PyInt i)
  then show ?thesis
    by (auto simp: clamped_def py_max_def py_min_def float_lt_def)
next
  case (PyFloat x)
  then show ?thesis
    by (cases x) (auto simp: clamped_def py_max_def py_min_def float_lt_def)
qed

lemma clamped_below: "num_lt val (PyInt 0) \<Longrightarrow> clamped val = PyInt 0"
proof (cases val)
  case (PyInt i)
  assume "num_lt val (PyInt 0)"
  with PyInt show ?thesis
    by (auto simp: clamped_def py_max_def py_min_def float_lt_def)
next
  case (PyFloat x)
  assume "num_lt val (PyInt 0)"
  with PyFloat show ?thesis
    by (cases x) (auto simp: clamped_def py_max_def py_min_def float_lt_def)
qed

lemma clamped_above: "num_lt (PyFloat (Finite 1)) val \<Longrightarrow> clamped val = PyFloat (Finite 1)"
proof (cases val)
  case (PyInt i)
  assume "num_lt (PyFloat (Finite 1)) val"
  with PyInt show ?thesis
    by (auto simp: clamped_def py_max_def py_min_def float_lt_def)
next
  case (PyFloat x)
  assume "num_lt (PyFloat (Finite 1)) val"
  with PyFloat show ?thesis
    by (cases x) (auto simp: clamped_def py_max_def py_min_def float_lt_def)
qed

lemma clamped_zero: "clamped (PyInt 0) = PyInt 0"
  by (simp add: clamped_def py_max_def py_min_def float_lt_def)

lemma clamped_one: "clamped (PyFloat (Finite 1)) = PyFloat (Finite 1)"
  by (simp add: clamped_def py_max_def py_min_def float_lt_def)

lemma clamped_inside:
  "\<not> num_lt val (PyInt 0) \<Longrightarrow> \<not> num_lt (PyFloat (Finite 1)) val \<Longrightarrow> val \<noteq> PyFloat NaN \<Longrightarrow>
   to_float (clamped val) = to_float val"
proof (cases val)
  case (PyInt i)
  assume "\<not> num_lt val (PyInt 0)" "\<not> num_lt (PyFloat (Finite 1)) val"
  with PyInt have "i = 0 \<or> i = 1" by (auto simp: float_lt_def)
  with PyInt show ?thesis
    by (auto simp: clamped_def py_max_def py_min_def float_lt_def)
next
  case (PyFloat x)
  assume "\<not> num_lt val (PyInt 0)" "\<not> num_lt (PyFloat (Finite 1)) val" "val \<noteq> PyFloat NaN"
  with PyFloat show ?thesis
    by (cases x) (auto simp: clamped_def py_max_def py_min_def float_lt_def)
qed

lemma duty_cycle_range:
  assumes "mono (fp_round w)" "fp_round w 0 = 0" "fp_round w 65535 = 65535"
  shows "\<exists>d c. py_int (times_65535 w (clamped val)) = Inr d \<and>
           to_float (clamped val) = Finite c \<and> 0 \<le> c \<and> c \<le> 1 \<and>
           d = \<lfloor>fp_round w (c * 65535)\<rfloor> \<and> 0 \<le> d \<and> d \<le> 65535"
proof -
  from clamped_cases [of val] show ?thesis
  proof
    assume "clamped val = PyInt 0"
    with assms(2) show ?thesis by simp
  next
    assume "\<exists>r. clamped val = PyFloat (Finite r) \<and> 0 < r \<and> r \<le> 1"
    then obtain r where r: "clamped val = PyFloat (Finite r)" "0 < r" "r \<le> 1" by blast
    define x where "x = fp_round w (r * 65535)"
    from r have lo: "0 \<le> r * 65535" and hi: "r * 65535 \<le> 65535" by simp_all
    from monoD [OF assms(1) lo] assms(2) have x0: "0 \<le> x" by (simp add: x_def)
    from monoD [OF assms(1) hi] assms(3) have x1: "x \<le> 65535" by (simp add: x_def)
    from x0 have f0: "0 \<le> \<lfloor>x\<rfloor>" by simp
    from floor_mono [OF x1] have f1: "\<lfloor>x\<rfloor> \<le> 65535" by simp
    have "py_int (times_65535 w (clamped val)) = Inr \<lfloor>x\<rfloor>"
      using x0 by (simp add: r(1) x_def)
    moreover from r have "to_float (clamped val) = Finite r" "0 \<le> r" by simp_all
    ultimately show ?thesis using f0 f1 r(3) unfolding x_def by blast
  qed
qed

lemma set_backlight_pwm:
  "truthy (backlight (self m)) \<Longrightarrow> py_int (times_65535 w (clamped val)) = Inr d \<Longrightarrow>
   set_backlight w val m = (Returns (), m\<lparr>hist := hist m @ [DutyCycle d]\<rparr>)"
  by (simp add: set_backlight_def bind_def get_self_def lift_def ret_def emit_def)

text \<open>
  C10. \<^verbatim>\<open>set_backlight\<close> acts on the clamped brightness \<^verbatim>\<open>max(0, min(1.0, val))\<close>: an
  argument below 0 behaves as 0, one above 1.0 as 1.0, and one in between is used as it is.
  With a PWM backlight the call writes the duty cycle \<^verbatim>\<open>int(clamped * 65535)\<close> and nothing
  else: for the clamped brightness \<open>c\<close>, a real number between 0 and 1, the value written is
  the product \<open>c * 65535\<close>, rounded to a float, with its fraction dropped; it lies between 0
  and 65535, is 0 for the argument 0 and 65535 for the argument 1.0. Without a PWM backlight
  the call writes the clamped brightness to the display. The product is rounded to a float
  by a monotone rounding that leaves 0 and 65535 alone.
\<close>

theorem set_backlight_clamps:
  assumes "mono (fp_round w)" "fp_round w 0 = 0" "fp_round w 65535 = 65535"
  shows "(num_lt val (PyInt 0) \<longrightarrow> set_backlight w val m = set_backlight w (PyInt 0) m) \<and>
         (num_lt (PyFloat (Finite 1)) val \<longrightarrow>
            set_backlight w val m = set_backlight w (PyFloat (Finite 1)) m) \<and>
         (\<not> num_lt val (PyInt 0) \<and> \<not> num_lt (PyFloat (Finite 1)) val \<and> val \<noteq> PyFloat NaN \<longrightarrow>
            to_float (clamped val) = to_float val) \<and>
         (truthy (backlight (self m)) \<longrightarrow>
            (\<exists>d c. set_backlight w val m = (Returns (), m\<lparr>hist := hist m @ [DutyCycle d]\<rparr>) \<and>
                 py_int (times_65535 w (clamped val)) = Inr d \<and>
                 to_float (clamped val) = Finite c \<and> 0 \<le> c \<and> c \<le> 1 \<and>
                 d = \<lfloor>fp_round w (c * 65535)\<rfloor> \<and> 0 \<le> d \<and> d \<le> 65535)) \<and>
         (truthy (backlight (self m)) \<longrightarrow>
            set_backlight w (PyInt 0) m = (Returns (), m\<lparr>hist := hist m @ [DutyCycle 0]\<rparr>) \<and>
            set_backlight w (PyFloat (Finite 1)) m
              = (Returns (), m\<lparr>hist := hist m @ [DutyCycle 65535]\<rparr>)) \<and>
         (\<not> truthy (backlight (self m)) \<longrightarrow>
            set_backlight w val m =
              (Returns (), m\<lparr>hist := hist m @ [AutoBrightness False, Brightness (clamped val)]\<rparr>))"
proof (intro conjI impI)
  assume "num_lt val (PyInt 0)"
  then have "clamped val = clamped (PyInt 0)"
    by (simp add: clamped_below clamped_zero)
  then show "set_backlight w val m = set_backlight w (PyInt 0) m"
    by (simp add: set_backlight_def cong: if_cong)
next
  assume "num_lt (PyFloat (Finite 1)) val"
  then have "clamped val = clamped (PyFloat (Finite 1))"
    by (simp add: clamped_above clamped_one)
  then show "set_backlight w val m = set_backlight w (PyFloat (Finite 1)) m"
    by (simp add: set_backlight_def cong: if_cong)
next
  assume "\<not> num_lt val (PyInt 0) \<and> \<not> num_lt (PyFloat (Finite 1)) val \<and> val \<noteq> PyFloat NaN"
  then show "to_float (clamped val) = to_float val"
    by (simp add: clamped_inside)
next
  assume b: "truthy (backlight (self m))"
  from duty_cycle_range [OF assms, of val] obtain d c where
    d: "py_int (times_65535 w (clamped val)) = Inr d" "to_float (clamped val) = Finite c"
      "0 \<le> c" "c \<le> 1" "d = \<lfloor>fp_round w (c * 65535)\<rfloor>" "0 \<le> d" "d \<le> 65535" by blast
  from set_backlight_pwm [OF b d(1)] d
  show "\<exists>d c. set_backlight w val m = (Returns (), m\<lparr>hist := hist m @ [DutyCycle d]\<rparr>) \<and>
                 py_int (times_65535 w (clamped val)) = Inr d \<and>
                 to_float (clamped val) = Finite c \<and> 0 \<le> c \<and> c \<le> 1 \<and>
                 d = \<lfloor>fp_round w (c * 65535)\<rfloor> \<and> 0 \<le> d \<and> d \<le> 65535"
    by blast
next
  assume b: "truthy (backlight (self m))"
  have "py_int (times_65535 w (clamped (PyInt 0))) = Inr 0"
    by (simp add: clamped_zero)
  from set_backlight_pwm [OF b this]
  show "set_backlight w (PyInt 0) m = (Returns (), m\<lparr>hist := hist m @ [DutyCycle 0]\<rparr>)" .
next
  assume b: "truthy (backlight (self m))"
  have "py_int (times_65535 w (clamped (PyFloat (Finite 1)))) = Inr 65535"
    by (simp add: clamped_one assms(3))
  from set_backlight_pwm [OF b this]
  show "set_backlight w (PyFloat (Finite 1)) m
      = (Returns (), m\<lparr>hist := hist m @ [DutyCycle 65535]\<rparr>)" .
next
  assume "\<not> truthy (backlight (self m))"
  then show "set_backlight w val m =
      (Returns (), m\<lparr>hist := hist m @ [AutoBrightness False, Brightness (clamped val)]\<rparr>)"
    by (simp add: set_backlight_def bind_def get_self_def emit_def)
qed

theorem set_backlight_clamps_witness:
  "mono (fp_round calm_world) \<and> fp_round calm_world 0 = 0 \<and>
   fp_round calm_world 65535 = 65535 \<and>
   num_lt (PyInt (- 3)) (PyInt 0) \<and>
   set_backlight calm_world (PyInt (- 3)) pwm_board
     = (Returns (), pwm_board\<lparr>hist := hist pwm_board @ [DutyCycle 0]\<rparr>) \<and>
   num_lt (PyFloat (Finite 1)) (PyInt 2) \<and>
   set_backlight calm_world (PyInt 2) pwm_board
     = (Returns (), pwm_board\<lparr>hist := hist pwm_board @ [DutyCycle 65535]\<rparr>) \<and>
   truthy (backlight (self pwm_board)) \<and>
   set_backlight calm_world (PyFloat (Finite (1 / 2))) pwm_board =
     (Returns (), pwm_board\<lparr>hist := hist pwm_board @ [DutyCycle 32767]\<rparr>) \<and>
   set_backlight calm_world (PyFloat (Finite (1 / 4))) pwm_board =
     (Returns (), pwm_board\<lparr>hist := hist pwm_board @ [DutyCycle 16383]\<rparr>)"
proof -
  have a: "mono (fp_round calm_world)" "fp_round calm_world 0 = 0"
    "fp_round calm_world 65535 = 65535"
    by (simp_all add: calm_world_def mono_def)
  have b: "truthy (backlight (self pwm_board))" by (simp add: pwm_board_def)
  have c: "num_lt (PyInt (- 3)) (PyInt 0)" "num_lt (PyFloat (Finite 1)) (PyInt 2)"
    by (simp_all add: float_lt_def)
  have r: "fp_round calm_world x = x" for x by (simp add: calm_world_def)
  have h: "to_float (clamped (PyFloat (Finite (1 / 2)))) = Finite (1 / 2)"
    "to_float (clamped (PyFloat (Finite (1 / 4)))) = Finite (1 / 4)"
    by (simp_all add: clamped_def py_max_def py_min_def float_lt_def)
  from set_backlight_clamps [OF a, of "PyInt (- 3)" pwm_board] b c
  have 1: "set_backlight calm_world (PyInt (- 3)) pwm_board
     = (Returns (), pwm_board\<lparr>hist := hist pwm_board @ [DutyCycle 0]\<rparr>)" by simp
  from set_backlight_clamps [OF a, of "PyInt 2" pwm_board] b c
  have 2: "set_backlight calm_world (PyInt 2) pwm_board
     = (Returns (), pwm_board\<lparr>hist := hist pwm_board @ [DutyCycle 65535]\<rparr>)" by simp
  from set_backlight_clamps [OF a, of "PyFloat (Finite (1 / 2))" pwm_board] b
  obtain d x where d: "set_backlight calm_world (PyFloat (Finite (1 / 2))) pwm_board =
       (Returns (), pwm_board\<lparr>hist := hist pwm_board @ [DutyCycle d]\<rparr>)"
     "to_float (clamped (PyFloat (Finite (1 / 2)))) = Finite x"
     "d = \<lfloor>fp_round calm_world (x * 65535)\<rfloor>"
    by blast
  from d(2) h(1) have "x = 1 / 2" by simp
  with d(3) have "d = 32767" by (simp add: r)
  with d(1) have 3: "set_backlight calm_world (PyFloat (Finite (1 / 2))) pwm_board =
     (Returns (), pwm_board\<lparr>hist := hist pwm_board @ [DutyCycle 32767]\<rparr>)" by simp
  from set_backlight_clamps [OF a, of "PyFloat (Finite (1 / 4))" pwm_board] b
  obtain d' x' where d': "set_backlight calm_world (PyFloat (Finite (1 / 4))) pwm_board =
       (Returns (), pwm_board\<lparr>hist := hist pwm_board @ [DutyCycle d']\<rparr>)"
     "to_float (clamped (PyFloat (Finite (1 / 4)))) = Finite x'"
     "d' = \<lfloor>fp_round calm_world (x' * 65535)\<rfloor>"
    by blast
  from d'(2) h(2) have "x' = 1 / 4" by simp
  with d'(3) have "d' = 16383" by (simp add: r)
  with d'(1) have 4: "set_backlight calm_world (PyFloat (Finite (1 / 4))) pwm_board =
     (Returns (), pwm_board\<lparr>hist := hist pwm_board @ [DutyCycle 16383]\<rparr>)" by simp
  from a b c 1 2 3 4 show ?thesis by simp
qed

section \<open>Reasoning about runs\<close>

lemma bind_Returns:
  "bind p f m = (Returns v, m') \<Longrightarrow> \<exists>x m1. p m = (Returns x, m1) \<and> f x m1 = (Returns v, m')"
  by (auto simp: bind_def split: prod.splits outcome.splits)


lemma bind_ret: "bind (ret x) f m = f x m"
  by (simp add: bind_def ret_def)

lemma lift_Returns: "lift r m = (Returns v, m') \<Longrightarrow> r = Inr v \<and> m' = m"
  by (cases r) (auto simp: lift_def ret_def raise_def)

lemma phases_Nil: "phases ph [] = []"
  by (simp add: phases_def)

lemma phases_append: "phases ph (a @ b) = phases ph a @ phases ph b"
  by (simp add: phases_def)

lemma phases_single: "phases ph [e] = (case ph e of None \<Rightarrow> [] | Some k \<Rightarrow> [k])"
  by (simp add: phases_def)

lemma staged_Nil: "staged ph lo hi []"
  by (simp add: staged_def phases_Nil)

lemma staged_single: "(\<And>k. ph e = Some k \<Longrightarrow> lo \<le> k \<and> k \<le> hi) \<Longrightarrow> staged ph lo hi [e]"
  by (cases "ph e") (simp_all add: staged_def phases_single)

lemma staged_append:
  "staged ph lo mid a \<Longrightarrow> staged ph mid hi b \<Longrightarrow> lo \<le> mid \<Longrightarrow> mid \<le> hi \<Longrightarrow>
   staged ph lo hi (a @ b)"
  by (fastforce simp: staged_def phases_append sorted_append list_all_iff)

lemma staged_weaken:
  "staged ph lo hi es \<Longrightarrow> lo' \<le> lo \<Longrightarrow> hi \<le> hi' \<Longrightarrow> staged ph lo' hi' es"
  by (fastforce simp: staged_def list_all_iff)

lemma runs_withinD:
  "runs_within ph lo hi p \<Longrightarrow>
   self (snd (p m)) = self m \<and> (\<exists>es. hist (snd (p m)) = hist m @ es \<and> staged ph lo hi es)"
  by (simp add: runs_within_def)

lemma rw_ret: "runs_within ph lo hi (ret x)"
  by (simp add: runs_within_def ret_def staged_Nil)

lemma rw_raise: "runs_within ph lo hi (raise e)"
  by (simp add: runs_within_def raise_def staged_Nil)

lemma rw_lift: "runs_within ph lo hi (lift r)"
  by (cases r) (simp_all add: lift_def rw_ret rw_raise)

lemma rw_get_self: "runs_within ph lo hi get_self"
  by (simp add: runs_within_def get_self_def staged_Nil)

lemma rw_emit:
  "(\<And>k. ph st = Some k \<Longrightarrow> lo \<le> k \<and> k \<le> hi) \<Longrightarrow> runs_within ph lo hi (emit st)"
  by (simp add: runs_within_def emit_def staged_single)

lemma rw_call_unit:
  "(\<And>k. ph st = Some k \<Longrightarrow> lo \<le> k \<and> k \<le> hi) \<Longrightarrow> runs_within ph lo hi (call_unit w st)"
  by (simp add: runs_within_def call_unit_def staged_single)

lemma rw_call_val:
  "(\<And>k. ph st = Some k \<Longrightarrow> lo \<le> k \<and> k \<le> hi) \<Longrightarrow> runs_within ph lo hi (call_val w st)"
  by (simp add: runs_within_def call_val_def staged_single)

lemma rw_call_resp:
  "(\<And>k. ph st = Some k \<Longrightarrow> lo \<le> k \<and> k \<le> hi) \<Longrightarrow> runs_within ph lo hi (call_resp w st)"
  by (simp add: runs_within_def call_resp_def staged_single)

lemma rw_call_user:
  "(\<And>k. ph st = Some k \<Longrightarrow> lo \<le> k \<and> k \<le> hi) \<Longrightarrow> runs_within ph lo hi (call_user w st v)"
  by (simp add: runs_within_def call_user_def staged_single)

lemma rw_weaken:
  "runs_within ph lo hi p \<Longrightarrow> lo' \<le> lo \<Longrightarrow> hi \<le> hi' \<Longrightarrow> runs_within ph lo' hi' p"
  unfolding runs_within_def using staged_weaken by blast

lemma rw_bind:
  assumes p: "runs_within ph lo mid p"
    and f: "\<And>x. runs_within ph mid hi (f x)"
    and le: "lo \<le> mid" "mid \<le> hi"
  shows "runs_within ph lo hi (bind p f)"
  unfolding runs_within_def
proof
  fix m
  obtain r m1 where run: "p m = (r, m1)" by (cases "p m") auto
  from runs_withinD [OF p, of m] run obtain es1 where
    p1: "self m1 = self m" "hist m1 = hist m @ es1" "staged ph lo mid es1" by auto
  show "self (snd (bind p f m)) = self m \<and>
        (\<exists>es. hist (snd (bind p f m)) = hist m @ es \<and> staged ph lo hi es)"
  proof (cases r)
    case (Returns x)
    from runs_withinD [OF f, of x m1] obtain es2 where
      f1: "self (snd (f x m1)) = self m1" "hist (snd (f x m1)) = hist m1 @ es2"
        "staged ph mid hi es2" by auto
    from Returns run have "bind p f m = f x m1" by (simp add: bind_def)
    with p1 f1 staged_append [OF p1(3) f1(3) le] show ?thesis by auto
  next
    case (Raises e)
    with run have "bind p f m = (Raises e, m1)" by (simp add: bind_def)
    with p1 staged_weaken [OF p1(3) order_refl le(2)] show ?thesis by auto
  next
    case Hangs
    with run have "bind p f m = (Hangs, m1)" by (simp add: bind_def)
    with p1 staged_weaken [OF p1(3) order_refl le(2)] show ?thesis by auto
  qed
qed

lemma rw_try:
  assumes p: "runs_within ph lo mid p"
    and h: "\<And>e q. h e = Some q \<Longrightarrow> runs_within ph mid hi q"
    and le: "lo \<le> mid" "mid \<le> hi"
  shows "runs_within ph lo hi (try_except p h)"
  unfolding runs_within_def
proof
  fix m
  obtain r m1 where run: "p m = (r, m1)" by (cases "p m") auto
  from runs_withinD [OF p, of m] run obtain es1 where
    p1: "self m1 = self m" "hist m1 = hist m @ es1" "staged ph lo mid es1" by auto
  note weak = staged_weaken [OF p1(3) order_refl le(2)]
  show "self (snd (try_except p h m)) = self m \<and>
        (\<exists>es. hist (snd (try_except p h m)) = hist m @ es \<and> staged ph lo hi es)"
  proof (cases r)
    case (Returns x)
    with run have "try_except p h m = (Returns x, m1)" by (simp add: try_except_def)
    with p1 weak show ?thesis by auto
  next
    case Hangs
    with run have "try_except p h m = (Hangs, m1)" by (simp add: try_except_def)
    with p1 weak show ?thesis by auto
  next
    case (Raises e)
    show ?thesis
    proof (cases "h e")
      case None
      with Raises run have "try_except p h m = (Raises e, m1)" by (simp add: try_except_def)
      with p1 weak show ?thesis by auto
    next
      case (Some q)
      from runs_withinD [OF h [OF Some], of m1] obtain es2 where
        q1: "self (snd (q m1)) = self m1" "hist (snd (q m1)) = hist m1 @ es2"
          "staged ph mid hi es2" by auto
      from Some Raises run have "try_except p h m = q m1" by (simp add: try_except_def)
      with p1 q1 staged_append [OF p1(3) q1(3) le] show ?thesis by auto
    qed
  qed
qed

lemma rw_collect:
  assumes "\<And>x. runs_within ph k k (f x)"
  shows "runs_within ph k k (collect f xs)"
proof (induction xs)
  case Nil
  show ?case by (simp add: rw_ret)
next
  case (Cons x xs)
  have "\<And>y. runs_within ph k k (bind (collect f xs) (\<lambda>ys. ret (y # ys)))"
    by (rule rw_bind [where mid = k]) (simp_all add: Cons rw_ret)
  with assms show ?case
    by (simp add: rw_bind [where mid = k])
qed

lemma rw_for_each:
  assumes "\<And>x acc. runs_within ph k k (f x acc)"
  shows "runs_within ph k k (for_each f xs acc)"
proof (induction xs arbitrary: acc)
  case Nil
  show ?case by (simp add: rw_ret)
next
  case (Cons x xs)
  with assms show ?case
    by (simp add: rw_bind [where mid = k])
qed

lemmas rw_basic = rw_ret rw_raise rw_lift rw_get_self rw_emit rw_call_unit rw_call_val rw_call_resp
  rw_call_user

section \<open>The order of steps in the monolithic \<^verbatim>\<open>fetch\<close>\<close>

lemma rw_neo_status: "ph (NeoFill c) = None \<Longrightarrow> runs_within ph lo hi (neo_status c)"
  using staged_single [of ph "NeoFill c" lo hi]
  by (simp add: runs_within_def neo_status_def bind_def get_self_def emit_def ret_def staged_Nil)

lemma co_obtain_response: "runs_within claimed_phase 0 0 (obtain_response w)"
  unfolding obtain_response_def
  by (auto intro!: rw_bind [where mid = 0] rw_basic rw_neo_status split: option.splits)

lemma co_parse_json: "runs_within claimed_phase 1 1 (parse_json r)"
  unfolding parse_json_def
  by (auto intro!: rw_bind [where mid = 1] rw_try [where mid = 1] rw_basic
      split: if_splits pyexn.splits)

lemma co_extract_values: "runs_within claimed_phase 1 1 (extract_values w r j)"
  unfolding extract_values_def
  by (auto intro!: rw_bind [where mid = 1] rw_collect rw_basic)

lemma co_find_image_url: "runs_within claimed_phase 1 2 (find_image_url w j u)"
proof -
  have body: "runs_within claimed_phase 1 1
      (bind (emit (JsonTraverse x)) (\<lambda>_. lift (json_traverse j x)))" for x
    by (auto intro!: rw_bind [where mid = 1] rw_basic)
  have handler: "runs_within claimed_phase 1 2
      (bind (lift (args0 args)) (\<lambda>missing.
       bind (call_unit w (SetBackground d PNone)) (\<lambda>_. ret u)))" for d args
    by (auto intro!: rw_bind [where mid = 2] rw_basic)
  show ?thesis
    unfolding find_image_url_def
    by (auto intro!: rw_bind [where mid = 1, OF rw_get_self] rw_try [where mid = 1, OF body]
        handler rw_ret simp del: One_nat_def split: if_splits pyexn.splits)
qed

lemma co_show_image: "runs_within claimed_phase 2 2 (show_image w u)"
  unfolding show_image_def
  by (auto intro!: rw_bind [where mid = 2] rw_try [where mid = 2] rw_basic
      split: if_splits pyexn.splits)

lemma co_notify: "runs_within claimed_phase 2 2 (notify w v)"
  unfolding notify_def
  by (auto intro!: rw_bind [where mid = 2] rw_basic)

lemma co_label_text: "runs_within claimed_phase 3 3 (label_text w slot i v)"
  unfolding label_text_def
  by (auto intro!: rw_bind [where mid = 3] rw_try [where mid = 3] rw_basic split: if_splits)

lemma co_fill_label: "runs_within claimed_phase 3 3 (fill_label w entry v)"
  unfolding fill_label_def
  by (cases entry) (auto intro!: rw_bind [where mid = 3] rw_basic co_label_text)

lemma co_fill_text: "runs_within claimed_phase 3 3 (fill_text w v)"
  unfolding fill_text_def
  by (auto intro!: rw_bind [where mid = 3] rw_for_each rw_basic co_fill_label)

text \<open>The same parts of \<^verbatim>\<open>fetch\<close> against the position of the release.\<close>

lemma ro_obtain_response: "runs_within release_phase 0 0 (obtain_response w)"
  unfolding obtain_response_def neo_status_def
  by (auto intro!: rw_bind [where mid = 0] rw_basic split: option.splits)

lemma ro_parse_json: "runs_within release_phase 0 0 (parse_json r)"
  unfolding parse_json_def
  by (auto intro!: rw_bind [where mid = 0] rw_try [where mid = 0] rw_basic
      split: if_splits pyexn.splits)

lemma ro_extract_values: "runs_within release_phase 0 0 (extract_values w r j)"
  unfolding extract_values_def
  by (auto intro!: rw_bind [where mid = 0] rw_collect rw_basic)

lemma ro_find_image_url: "runs_within release_phase 0 0 (find_image_url w j u)"
  unfolding find_image_url_def
  by (auto intro!: rw_bind [where mid = 0] rw_try [where mid = 0] rw_basic
      split: if_splits pyexn.splits)

lemma ro_show_image: "runs_within release_phase 2 2 (show_image w u)"
  unfolding show_image_def
  by (auto intro!: rw_bind [where mid = 2] rw_try [where mid = 2] rw_basic
      split: if_splits pyexn.splits)

lemma ro_notify: "runs_within release_phase 2 2 (notify w v)"
  unfolding notify_def
  by (auto intro!: rw_bind [where mid = 2] rw_basic)

lemma ro_label_text: "runs_within release_phase 2 2 (label_text w slot i v)"
  unfolding label_text_def
  by (auto intro!: rw_bind [where mid = 2] rw_try [where mid = 2] rw_basic split: if_splits)

lemma ro_fill_label: "runs_within release_phase 2 2 (fill_label w entry v)"
  unfolding fill_label_def
  by (cases entry) (auto intro!: rw_bind [where mid = 2] rw_basic ro_label_text)

lemma ro_fill_text: "runs_within release_phase 2 2 (fill_text w v)"
  unfolding fill_text_def
  by (auto intro!: rw_bind [where mid = 2] rw_for_each rw_basic ro_fill_label)

lemma ro_process_response: "runs_within release_phase 0 2 (process_response w r)"
  unfolding process_response_def
  apply (rule rw_bind [where mid = 0, OF ro_parse_json])
    apply (rule rw_bind [where mid = 0, OF rw_get_self])
      apply (rule rw_bind [where mid = 0, OF rw_ret])
        apply (rule rw_bind [where mid = 0, OF ro_extract_values])
          apply (rule rw_bind [where mid = 0, OF ro_find_image_url])
            apply (rule rw_bind [where mid = 1, OF rw_emit])
               apply simp
              apply (rule rw_bind [where mid = 2, OF rw_weaken [OF ro_show_image]])
                  apply simp
                 apply simp
                apply (rule rw_bind [where mid = 2, OF ro_notify])
                  apply (rule rw_bind [where mid = 2, OF ro_fill_text])
                    apply (simp_all add: rw_lift)
  done

lemma ro_fetch_body: "runs_within release_phase 0 2 (fetch_body w)"
  unfolding fetch_body_def
  by (rule rw_bind [where mid = 0, OF ro_obtain_response])
     (simp_all add: ro_process_response)

lemma co_process_response: "runs_within claimed_phase 1 3 (process_response w r)"
  unfolding process_response_def
  apply (rule rw_bind [where mid = 1, OF co_parse_json])
    apply (rule rw_bind [where mid = 1, OF rw_get_self])
      apply (rule rw_bind [where mid = 1, OF rw_ret])
        apply (rule rw_bind [where mid = 1, OF co_extract_values])
          apply (rule rw_bind [where mid = 2, OF co_find_image_url])
            apply (rule rw_bind [where mid = 2, OF rw_emit])
               apply simp
              apply (rule rw_bind [where mid = 2, OF co_show_image])
                apply (rule rw_bind [where mid = 2, OF co_notify])
                  apply (rule rw_bind [where mid = 3, OF rw_weaken [OF co_fill_text]])
                      apply (simp_all add: rw_lift)
  done

lemma co_fetch_body: "runs_within claimed_phase 0 3 (fetch_body w)"
  unfolding fetch_body_def
  by (rule rw_bind [where mid = 0, OF co_obtain_response])
     (simp_all add: rw_weaken [OF co_process_response])

section \<open>The order of steps in the package's \<^verbatim>\<open>fetch\<close>\<close>

lemma po_parse_json2: "runs_within package_phase 1 1 (parse_json2 r)"
  unfolding parse_json2_def
  by (auto intro!: rw_bind [where mid = 1] rw_try [where mid = 1] rw_basic
      split: if_splits pyexn.splits)

lemma po_show_image2: "runs_within package_phase 2 2 (show_image2 w j)"
  unfolding show_image2_def
  by (auto intro!: rw_bind [where mid = 2] rw_try [where mid = 2] rw_basic
      split: if_splits pyexn.splits)

lemma po_extract_values2: "runs_within package_phase 3 3 (extract_values2 w c r j path)"
  unfolding extract_values2_def
  by (auto intro!: rw_bind [where mid = 3] rw_basic)

lemma po_notify2: "runs_within package_phase 3 3 (notify2 w v)"
  unfolding notify2_def
  by (auto intro!: rw_bind [where mid = 3] rw_basic)

lemma po_fill: "runs_within package_phase 4 4 (fill_text_labels w v)"
  unfolding fill_text_labels_def
  by (auto intro!: rw_bind [where mid = 4] rw_basic)

lemma po_process_response2: "runs_within package_phase 1 5 (process_response2 w r)"
  unfolding process_response2_def
  apply (rule rw_bind [where mid = 1, OF rw_get_self])
    apply (rule rw_bind [where mid = 1, OF rw_call_val])
       apply simp
      apply (rule rw_bind [where mid = 1, OF rw_ret])
        apply (rule rw_bind [where mid = 1])
           apply (simp add: po_parse_json2 rw_ret del: One_nat_def)
          apply (rule rw_bind [where mid = 2, OF rw_weaken [OF po_show_image2]])
              apply simp
             apply simp
            apply (rule rw_bind [where mid = 3, OF rw_weaken [OF po_extract_values2]])
                apply simp
               apply simp
              apply (rule rw_bind [where mid = 3, OF po_notify2])
                apply (rule rw_bind [where mid = 4, OF rw_weaken [OF po_fill]])
                    apply simp
                   apply simp
                  apply (rule rw_bind [where mid = 5, OF rw_emit])
                     apply (simp_all add: rw_ret)
  done

lemma po_fetch2_body: "runs_within package_phase 0 5 (fetch2_body w t)"
  unfolding fetch2_body_def
  apply (rule rw_bind [where mid = 0, OF rw_get_self])
    apply (rule rw_bind [where mid = 0, OF rw_call_resp])
       apply (simp_all add: rw_weaken [OF po_process_response2])
  done

section \<open>Whole runs of \<^verbatim>\<open>fetch\<close>\<close>

lemma rw_run:
  "runs_within ph lo hi p \<Longrightarrow> p m = (r, m') \<Longrightarrow>
   self m' = self m \<and> (\<exists>es. hist m' = hist m @ es \<and> staged ph lo hi es)"
  using runs_withinD [of ph lo hi p m] by simp

lemma phases_member: "e \<in> set es \<Longrightarrow> ph e = Some k \<Longrightarrow> k \<in> set (phases ph es)"
  by (induction es) (auto simp: phases_def)

lemma data_requests_append: "data_requests (a @ b) = data_requests a @ data_requests b"
  by (simp add: data_requests_def)

lemma data_request_claimed: "data_request e \<noteq> None \<Longrightarrow> claimed_phase e = Some 0"
  by (cases e) simp_all

lemma data_request_package: "data_request e \<noteq> None \<Longrightarrow> package_phase e = Some 0"
  by (cases e) simp_all

lemma staged_no_request:
  assumes "staged ph lo hi es" "0 < lo" "\<And>e. data_request e \<noteq> None \<Longrightarrow> ph e = Some 0"
  shows "data_requests es = []"
proof -
  have "data_request e = None" if "e \<in> set es" for e
  proof (rule ccontr)
    assume "data_request e \<noteq> None"
    then have "ph e = Some 0" by (rule assms(3))
    with that have "0 \<in> set (phases ph es)" by (rule phases_member)
    with assms(1,2) show False by (auto simp: staged_def list_all_iff)
  qed
  then show ?thesis by (simp add: data_requests_def)
qed

lemma refresh_run:
  "refresh ru m = (Returns (), m\<lparr>self := (if truthy ru then (self m)\<lparr>url := ru\<rparr> else self m)\<rparr>)"
  by (simp add: refresh_def modify_self_def ret_def)

lemma fetch_unfold:
  "fetch w ru m = fetch_body w (m\<lparr>self := (if truthy ru then (self m)\<lparr>url := ru\<rparr> else self m)\<rparr>)"
  by (simp add: fetch_def bind_def refresh_run)

lemma refresh2_run:
  "refresh2 ru m = (Returns (), m\<lparr>self := (if truthy ru then (self m)\<lparr>p_url := ru\<rparr> else self m)\<rparr>)"
  by (simp add: refresh2_def modify_self_def ret_def)

lemma fetch2_unfold:
  "fetch2 w ru t m =
     fetch2_body w t (m\<lparr>self := (if truthy ru then (self m)\<lparr>p_url := ru\<rparr> else self m)\<rparr>)"
  by (simp add: fetch2_def bind_def refresh2_run)

lemma steps_of_grown: "hist (snd (p m)) = hist m @ es \<Longrightarrow> steps_of p m = es"
  by (simp add: steps_of_def)

lemma obtain_response_requests:
  "data_requests (steps_of (obtain_response w) m) =
     (if uselocal (self m) \<or> reply_unit w (hist m @ [ConnectEsp]) \<noteq> Returns () then []
      else [RequestsGet (url (self m)) (headers (self m))])"
  by (cases "reply_unit w (hist m @ [ConnectEsp])")
     (auto simp: obtain_response_def neo_status_def bind_def get_self_def ret_def emit_def
        call_unit_def call_resp_def steps_of_def data_requests_def
        split: outcome.splits prod.splits)

lemma fetch_body_requests:
  "data_requests (steps_of (fetch_body w) m) =
     (if uselocal (self m) \<or> reply_unit w (hist m @ [ConnectEsp]) \<noteq> Returns () then []
      else [RequestsGet (url (self m)) (headers (self m))])"
proof -
  obtain r m1 where run: "obtain_response w m = (r, m1)"
    by (cases "obtain_response w m") auto
  from rw_run [OF co_obtain_response run] obtain es1 where
    g1: "self m1 = self m" "hist m1 = hist m @ es1" by blast
  from run g1 have s1: "steps_of (obtain_response w) m = es1"
    by (simp add: steps_of_def)
  have "\<exists>es2. hist (snd (fetch_body w m)) = hist m @ es1 @ es2 \<and> data_requests es2 = []"
  proof (cases r)
    case (Returns x)
    obtain r2 m2 where run2: "process_response w x m1 = (r2, m2)"
      by (cases "process_response w x m1") auto
    from rw_run [OF co_process_response run2] obtain es2 where
      g2: "hist m2 = hist m1 @ es2" "staged claimed_phase 1 3 es2" by blast
    from staged_no_request [OF g2(2) _ data_request_claimed]
    have "data_requests es2 = []" by simp
    moreover from Returns run run2 g1 g2 have "hist (snd (fetch_body w m)) = hist m @ es1 @ es2"
      by (simp add: fetch_body_def bind_def)
    ultimately show ?thesis by blast
  next
    case (Raises e)
    with run g1 have "hist (snd (fetch_body w m)) = hist m @ es1 @ []"
      by (simp add: fetch_body_def bind_def)
    then show ?thesis by (metis data_requests_def filter.simps(1))
  next
    case Hangs
    with run g1 have "hist (snd (fetch_body w m)) = hist m @ es1 @ []"
      by (simp add: fetch_body_def bind_def)
    then show ?thesis by (metis data_requests_def filter.simps(1))
  qed
  then obtain es2 where "hist (snd (fetch_body w m)) = hist m @ (es1 @ es2)"
    "data_requests es2 = []" by auto
  then have "data_requests (steps_of (fetch_body w) m) = data_requests es1"
    by (simp add: steps_of_grown data_requests_append)
  with s1 obtain_response_requests [of w m] show ?thesis by simp
qed

lemma fetch2_body_requests:
  "data_requests (steps_of (fetch2_body w t) m) = [NetworkFetch (p_url (self m)) t]"
proof -
  let ?m1 = "m\<lparr>hist := hist m @ [NetworkFetch (p_url (self m)) t]\<rparr>"
  have "\<exists>es2. hist (snd (fetch2_body w t m)) = hist m @ [NetworkFetch (p_url (self m)) t] @ es2
            \<and> data_requests es2 = []"
  proof (cases "reply_resp w (hist m @ [NetworkFetch (p_url (self m)) t])")
    case (Returns x)
    obtain r2 m2 where run2: "process_response2 w x ?m1 = (r2, m2)"
      by (cases "process_response2 w x ?m1") auto
    from rw_run [OF po_process_response2 run2] obtain es2 where
      g2: "hist m2 = hist ?m1 @ es2" "staged package_phase 1 5 es2" by blast
    from staged_no_request [OF g2(2) _ data_request_package]
    have "data_requests es2 = []" by simp
    moreover from Returns run2 g2
    have "hist (snd (fetch2_body w t m)) = hist m @ [NetworkFetch (p_url (self m)) t] @ es2"
      by (simp add: fetch2_body_def bind_def get_self_def call_resp_def)
    ultimately show ?thesis by blast
  next
    case (Raises e)
    then have "hist (snd (fetch2_body w t m)) = hist m @ [NetworkFetch (p_url (self m)) t] @ []"
      by (simp add: fetch2_body_def bind_def get_self_def call_resp_def)
    then show ?thesis by (metis data_requests_def filter.simps(1))
  next
    case Hangs
    then have "hist (snd (fetch2_body w t m)) = hist m @ [NetworkFetch (p_url (self m)) t] @ []"
      by (simp add: fetch2_body_def bind_def get_self_def call_resp_def)
    then show ?thesis by (metis data_requests_def filter.simps(1))
  qed
  then obtain es2 where
    "hist (snd (fetch2_body w t m)) = hist m @ ([NetworkFetch (p_url (self m)) t] @ es2)"
    "data_requests es2 = []" by auto
  then have "data_requests (steps_of (fetch2_body w t) m)
      = data_requests [NetworkFetch (p_url (self m)) t]"
    by (simp only: steps_of_grown data_requests_append append_Nil2)
  then show ?thesis by (simp add: data_requests_def)
qed

text \<open>
  C5, as the code has it. In the monolithic module, \<^verbatim>\<open>fetch(refresh_url)\<close> leaves the stored
  URL alone when \<^verbatim>\<open>refresh_url\<close> is false in a condition and sets it to \<^verbatim>\<open>refresh_url\<close>
  otherwise, whatever happens later in the call; a following \<^verbatim>\<open>fetch()\<close> keeps that URL.
  The call issues no HTTP GET for the data when the local file is in use or the connection
  step does not return, and otherwise exactly one, to the stored URL with the stored headers.
  In the package, \<^verbatim>\<open>fetch\<close> updates \<^verbatim>\<open>self.url\<close> the same way and hands the stored URL to
  \<^verbatim>\<open>network.fetch\<close> exactly once.
\<close>

theorem fetch_data_request:
  "url (self_after (fetch w refresh_url) m) = (if truthy refresh_url then refresh_url else url (self m)) \<and>
   url (self_after (fetch w PNone) (snd (fetch w refresh_url m)))
     = url (self_after (fetch w refresh_url) m) \<and>
   data_requests (steps_of (fetch w refresh_url) m) =
     (if uselocal (self m) then []
      else if reply_unit w (hist m @ [ConnectEsp]) = Returns ()
      then [RequestsGet (url (self_after (fetch w refresh_url) m)) (headers (self m))]
      else []) \<and>
   p_url (self_after (fetch2 w refresh_url timeout) m2)
     = (if truthy refresh_url then refresh_url else p_url (self m2)) \<and>
   data_requests (steps_of (fetch2 w refresh_url timeout) m2)
     = [NetworkFetch (p_url (self_after (fetch2 w refresh_url timeout) m2)) timeout]"
proof -
  let ?m0 = "m\<lparr>self := (if truthy refresh_url then (self m)\<lparr>url := refresh_url\<rparr> else self m)\<rparr>"
  let ?n0 = "m2\<lparr>self := (if truthy refresh_url then (self m2)\<lparr>p_url := refresh_url\<rparr> else self m2)\<rparr>"
  have keep: "self (snd (fetch w ru x)) = (if truthy ru then (self x)\<lparr>url := ru\<rparr> else self x)"
    for ru x
    using runs_withinD [OF co_fetch_body, of w "x\<lparr>self := (if truthy ru then (self x)\<lparr>url := ru\<rparr> else self x)\<rparr>"]
    by (simp add: fetch_unfold)
  have keep2: "self (snd (fetch2 w refresh_url timeout m2)) = self ?n0"
    using runs_withinD [OF po_fetch2_body, of w timeout ?n0] by (simp add: fetch2_unfold)
  have u1: "url (self_after (fetch w refresh_url) m)
      = (if truthy refresh_url then refresh_url else url (self m))"
    by (simp add: self_after_def keep)
  have u2: "url (self_after (fetch w PNone) (snd (fetch w refresh_url m)))
     = url (self_after (fetch w refresh_url) m)"
    by (simp add: self_after_def keep)
  have st: "steps_of (fetch w refresh_url) m = steps_of (fetch_body w) ?m0"
    by (simp add: steps_of_def fetch_unfold)
  have d1: "data_requests (steps_of (fetch w refresh_url) m) =
     (if uselocal (self m) then []
      else if reply_unit w (hist m @ [ConnectEsp]) = Returns ()
      then [RequestsGet (url (self_after (fetch w refresh_url) m)) (headers (self m))]
      else [])"
    unfolding st fetch_body_requests u1 by simp
  have u3: "p_url (self_after (fetch2 w refresh_url timeout) m2)
     = (if truthy refresh_url then refresh_url else p_url (self m2))"
    by (simp add: self_after_def keep2)
  have st2: "steps_of (fetch2 w refresh_url timeout) m2 = steps_of (fetch2_body w timeout) ?n0"
    by (simp add: steps_of_def fetch2_unfold)
  have d2: "data_requests (steps_of (fetch2 w refresh_url timeout) m2)
     = [NetworkFetch (p_url (self_after (fetch2 w refresh_url timeout) m2)) timeout]"
    unfolding st2 fetch2_body_requests u3 by simp
  from u1 u2 d1 u3 d2 show ?thesis by blast
qed

theorem fetch_data_request_witness:
  "url (self_after (fetch demo_world (PStr ''http://other'')) on_line) = PStr ''http://other'' \<and>
   data_requests (steps_of (fetch demo_world (PStr ''http://other'')) on_line)
     = [RequestsGet (PStr ''http://other'') PNone] \<and>
   data_requests (steps_of (fetch demo_world PNone) off_line) = [] \<and>
   data_requests (steps_of (fetch2 demo_world PNone (PNum (PyInt 10))) demo_package)
     = [NetworkFetch (PStr ''http://example.com/data'') (PNum (PyInt 10))]"
  using fetch_data_request [of demo_world "PStr ''http://other''" on_line "PNum (PyInt 10)" demo_package]
    fetch_data_request [of demo_world PNone off_line "PNum (PyInt 10)" demo_package]
  by (simp add: on_line_def off_line_def demo_portal_def demo_world_def calm_world_def
      demo_package_def)

text \<open>
  With the local file in use, \<^verbatim>\<open>fetch()\<close> returns the value and has issued no HTTP GET.
\<close>

theorem fetch_local_file_no_request:
  "result_of (fetch demo_world PNone) off_line = Returns (PNum (PyInt 21)) \<and>
   steps_of (fetch demo_world PNone) off_line =
     [OpenLocalFile, ResponseJson, JsonTraverse (PList [PNum (PyInt 0)]), Release,
      SetText (PStr ''21'') 0] \<and>
   data_requests (steps_of (fetch demo_world PNone) off_line) = []"
  by code_simp

lemma bind_ReturnsE:
  assumes "bind p f m = (Returns v, m')"
  obtains x m1 where "p m = (Returns x, m1)" "f x m1 = (Returns v, m')"
  using bind_Returns [OF assms] by blast

lemma process_response_release:
  assumes "process_response w r m = (Returns v, m')"
  shows "\<exists>es. hist m' = hist m @ es \<and> Release \<in> set es"
  using assms unfolding process_response_def
  by (elim bind_ReturnsE)
     (auto simp: get_self_def ret_def emit_def
        dest!: rw_run [OF co_parse_json] rw_run [OF co_extract_values]
          rw_run [OF co_find_image_url] rw_run [OF co_show_image] rw_run [OF co_notify]
          rw_run [OF co_fill_text] lift_Returns)

lemma po_parse_step:
  "runs_within package_phase 1 1 (if c then parse_json2 r else ret PNone)"
  by (simp add: po_parse_json2 rw_ret del: One_nat_def)

lemma process_response2_release:
  assumes "process_response2 w r m = (Returns v, m')"
  shows "\<exists>es. hist m' = hist m @ es \<and> es \<noteq> [] \<and> last es = Release"
  using assms unfolding process_response2_def
  by (elim bind_ReturnsE)
     (auto simp: get_self_def ret_def emit_def call_val_def call_unit_def
        dest!: rw_run [OF po_show_image2] rw_run [OF po_extract_values2] rw_run [OF po_notify2]
          rw_run [OF po_parse_step] rw_run [OF po_fill] lift_Returns)

lemma claimed_order_staged: "staged claimed_phase lo hi es \<Longrightarrow> claimed_order es"
  by (simp add: staged_def claimed_order_def)

lemma release_order_staged: "staged release_phase lo hi es \<Longrightarrow> release_order es"
  by (simp add: staged_def release_order_def)

lemma package_order_staged: "staged package_phase lo hi es \<Longrightarrow> package_order es"
  by (simp add: staged_def package_order_def)

lemma fetch_body_release:
  assumes "fetch_body w m = (Returns v, m')"
  shows "\<exists>es. hist m' = hist m @ es \<and> Release \<in> set es"
proof -
  from assms obtain r m1 where
    a: "obtain_response w m = (Returns r, m1)" and b: "process_response w r m1 = (Returns v, m')"
    unfolding fetch_body_def by (rule bind_ReturnsE)
  from rw_run [OF co_obtain_response a] obtain es1 where "hist m1 = hist m @ es1" by blast
  moreover from process_response_release [OF b] obtain es2 where
    "hist m' = hist m1 @ es2" "Release \<in> set es2" by blast
  ultimately have "hist m' = hist m @ (es1 @ es2)" "Release \<in> set (es1 @ es2)" by simp_all
  then show ?thesis by blast
qed

lemma fetch2_body_release:
  assumes "fetch2_body w t m = (Returns v, m')"
  shows "\<exists>es. hist m' = hist m @ es \<and> es \<noteq> [] \<and> last es = Release"
proof -
  from assms obtain p m0 r m1 where
    g: "get_self m = (Returns p, m0)" and
    a: "call_resp w (NetworkFetch (p_url p) t) m0 = (Returns r, m1)" and
    b: "process_response2 w r m1 = (Returns v, m')"
    unfolding fetch2_body_def by (elim bind_ReturnsE)
  from g a have "hist m1 = hist m @ [NetworkFetch (p_url p) t]"
    by (auto simp: get_self_def call_resp_def)
  moreover from process_response2_release [OF b] obtain es2 where
    "hist m' = hist m1 @ es2" "es2 \<noteq> []" "last es2 = Release" by blast
  ultimately have "hist m' = hist m @ ([NetworkFetch (p_url p) t] @ es2)"
    "[NetworkFetch (p_url p) t] @ es2 \<noteq> []" "last ([NetworkFetch (p_url p) t] @ es2) = Release"
    by simp_all
  then show ?thesis by blast
qed

text \<open>
  C3, as the code has it. In the monolithic module every run of \<^verbatim>\<open>fetch\<close>, however it
  ends, does its steps in the order of the specification: the request for the data, then
  JSON parsing and the traversals, then the image and the background, then the text labels.
  The response and the parsed JSON are released after the request, the JSON parsing, the
  traversals and the regular expressions, and before the image download, the success
  callback and the text labels; a call that returns has released them. In the package
  the order is another: the request, JSON parsing, the image and the background, only then
  the extraction of the values (\<^verbatim>\<open>process_json\<close> or \<^verbatim>\<open>process_text\<close>), the text
  labels, and the release as the last step before a return.
\<close>

theorem fetch_order:
  "claimed_order (steps_of (fetch w refresh_url) m) \<and>
   release_order (steps_of (fetch w refresh_url) m) \<and>
   (\<forall>v. result_of (fetch w refresh_url) m = Returns v \<longrightarrow>
        Release \<in> set (steps_of (fetch w refresh_url) m)) \<and>
   package_order (steps_of (fetch2 w refresh_url timeout) m2) \<and>
   (\<forall>v. result_of (fetch2 w refresh_url timeout) m2 = Returns v \<longrightarrow>
        last (steps_of (fetch2 w refresh_url timeout) m2) = Release)"
proof (intro conjI allI impI)
  let ?m0 = "m\<lparr>self := (if truthy refresh_url then (self m)\<lparr>url := refresh_url\<rparr> else self m)\<rparr>"
  let ?n0 = "m2\<lparr>self := (if truthy refresh_url then (self m2)\<lparr>p_url := refresh_url\<rparr> else self m2)\<rparr>"
  from runs_withinD [OF co_fetch_body, of w ?m0] obtain es where
    es: "hist (snd (fetch_body w ?m0)) = hist m @ es" "staged claimed_phase 0 3 es" by auto
  then have s: "steps_of (fetch w refresh_url) m = es"
    by (simp add: steps_of_def fetch_unfold)
  with es(2) show "claimed_order (steps_of (fetch w refresh_url) m)"
    by (simp add: claimed_order_staged)
  from runs_withinD [OF ro_fetch_body, of w ?m0] obtain rs where
    rs: "hist (snd (fetch_body w ?m0)) = hist m @ rs" "staged release_phase 0 2 rs" by auto
  then have "steps_of (fetch w refresh_url) m = rs"
    by (simp add: steps_of_def fetch_unfold)
  with rs(2) show "release_order (steps_of (fetch w refresh_url) m)"
    by (simp add: release_order_staged)
  from runs_withinD [OF po_fetch2_body, of w timeout ?n0] obtain es' where
    es': "hist (snd (fetch2_body w timeout ?n0)) = hist m2 @ es'" "staged package_phase 0 5 es'"
    by auto
  then have s': "steps_of (fetch2 w refresh_url timeout) m2 = es'"
    by (simp add: steps_of_def fetch2_unfold)
  with es'(2) show "package_order (steps_of (fetch2 w refresh_url timeout) m2)"
    by (simp add: package_order_staged)
  {
    fix v
    assume "result_of (fetch w refresh_url) m = Returns v"
    then have "fetch_body w ?m0 = (Returns v, snd (fetch_body w ?m0))"
      by (simp add: result_of_def fetch_unfold prod_eq_iff)
    from fetch_body_release [OF this] es(1)
    show "Release \<in> set (steps_of (fetch w refresh_url) m)"
      by (auto simp: s)
  }
  {
    fix v
    assume "result_of (fetch2 w refresh_url timeout) m2 = Returns v"
    then have "fetch2_body w timeout ?n0 = (Returns v, snd (fetch2_body w timeout ?n0))"
      by (simp add: result_of_def fetch2_unfold prod_eq_iff)
    from fetch2_body_release [OF this] es'(1)
    show "last (steps_of (fetch2 w refresh_url timeout) m2) = Release"
      by (auto simp: s')
  }
qed

theorem fetch_order_witness:
  "result_of (fetch photo_world PNone) photo_frame = Returns (PNum (PyInt 21)) \<and>
   steps_of (fetch photo_world PNone) photo_frame =
     [ConnectEsp, RequestsGet (PStr ''http://example.com/data'') PNone, ResponseJson,
      JsonTraverse (PList [PNum (PyInt 0)]), Release,
      Wget (PStr ''http://converter/picture'') ''/cache.bmp'' 12000,
      SetBackground (PStr ''/cache.bmp'') (PTuple [PNum (PyInt 0), PNum (PyInt 0)]),
      SetText (PStr ''21'') 0] \<and>
   claimed_order (steps_of (fetch photo_world PNone) photo_frame) \<and>
   release_order (steps_of (fetch photo_world PNone) photo_frame) \<and>
   Release \<in> set (steps_of (fetch photo_world PNone) photo_frame) \<and>
   result_of (fetch2 photo_world PNone (PNum (PyInt 10))) demo_package
     = Returns (PList [PNum (PyInt 21)]) \<and>
   package_order (steps_of (fetch2 photo_world PNone (PNum (PyInt 10))) demo_package) \<and>
   last (steps_of (fetch2 photo_world PNone (PNum (PyInt 10))) demo_package) = Release"
proof -
  have r: "result_of (fetch photo_world PNone) photo_frame = Returns (PNum (PyInt 21))"
    by code_simp
  have s: "steps_of (fetch photo_world PNone) photo_frame =
     [ConnectEsp, RequestsGet (PStr ''http://example.com/data'') PNone, ResponseJson,
      JsonTraverse (PList [PNum (PyInt 0)]), Release,
      Wget (PStr ''http://converter/picture'') ''/cache.bmp'' 12000,
      SetBackground (PStr ''/cache.bmp'') (PTuple [PNum (PyInt 0), PNum (PyInt 0)]),
      SetText (PStr ''21'') 0]"
    by code_simp
  have r2: "result_of (fetch2 photo_world PNone (PNum (PyInt 10))) demo_package
     = Returns (PList [PNum (PyInt 21)])"
    by code_simp
  from fetch_order [of photo_world PNone photo_frame "PNum (PyInt 10)" demo_package]
    r r2 s show ?thesis by simp
qed

text \<open>
  A run of the package's \<^verbatim>\<open>fetch\<close>: the image is processed and the background set before
  the values are extracted along the JSON path, against the order of the specification.
\<close>

theorem fetch2_image_before_values:
  "result_of (fetch2 demo_world PNone (PNum (PyInt 10))) demo_package
     = Returns (PList [PNum (PyInt 21)]) \<and>
   steps_of (fetch2 demo_world PNone (PNum (PyInt 10))) demo_package =
     [NetworkFetch (PStr ''http://example.com/data'') (PNum (PyInt 10)), CheckResponse,
      ResponseJson, ProcessImage (PList [PNum (PyInt 21), PNum (PyInt 22)]) False,
      GraphicsSetBackground (PStr ''/cache.bmp'') (PTuple [PNum (PyInt 0), PNum (PyInt 0)]),
      ProcessJson (PList [PNum (PyInt 21), PNum (PyInt 22)]) (PTuple [PList [PNum (PyInt 0)]]),
      FillTextLabels (PList [PNum (PyInt 21)]), Release] \<and>
   \<not> claimed_order (steps_of (fetch2 demo_world PNone (PNum (PyInt 10))) demo_package)"
  by code_simp

text \<open>
  Two runs of the monolithic \<^verbatim>\<open>fetch\<close> in which the picture is not in the data. When the
  missing key is a string the default background is set, before the release, and the call
  goes on; when it is a number the handler fails to build its message and the call ends in
  \<^verbatim>\<open>TypeError\<close>.
\<close>

lemma fetch_background_before_release:
  "result_of (fetch weather_world PNone) weather_station = Returns (PNum (PyInt 21)) \<and>
   steps_of (fetch weather_world PNone) weather_station =
     [ConnectEsp, RequestsGet (PStr ''http://example.com/data'') PNone, ResponseJson,
      JsonTraverse (PList [PStr ''temp'']), JsonTraverse (PList [PStr ''image'']),
      SetBackground (PNum (PyInt 0)) PNone, Release, SetText (PStr ''21'') 0]"
  by code_simp

lemma fetch_missing_image_index:
  "result_of (fetch weather_world PNone) weather_station_by_index = Raises TypeError \<and>
   steps_of (fetch weather_world PNone) weather_station_by_index =
     [ConnectEsp, RequestsGet (PStr ''http://example.com/data'') PNone, ResponseJson,
      JsonTraverse (PList [PStr ''temp'']), JsonTraverse (PList [PNum (PyInt 0)])]"
  by code_simp

section \<open>What \<^verbatim>\<open>fetch\<close> returns\<close>

lemma init_json_path_truthy: "init_json_path path = Inr stored \<Longrightarrow> truthy stored = truthy path"
  by (auto simp: init_json_path_def split: if_splits sum.splits)

lemma init_json_path_single:
  "\<not> is_seq k \<Longrightarrow> init_json_path (PList (k # ks)) = Inr (PTuple [PList (k # ks)])"
  by (simp add: init_json_path_def seq_index_def)

lemma obtain_response_Returns:
  "obtain_response w m = (Returns r, m') \<Longrightarrow>
   \<exists>h. reply_resp w h = Returns r \<and>
       (last h = OpenLocalFile \<or> last h = RequestsGet (url (self m)) (headers (self m)))"
  by (auto simp: obtain_response_def neo_status_def bind_def get_self_def ret_def emit_def
        call_unit_def call_resp_def
      split: if_splits outcome.splits prod.splits)









































text \<open>
  A run of the monolithic \<^verbatim>\<open>fetch\<close> whose success callback appends to the list it is
  handed: the call returns the list as the callback left it, not the single value
  extracted.
\<close>

lemma fetch_returns_changed_list:
  "result_of (fetch appending_world PNone) with_callback
     = Returns (PList [PNum (PyInt 21), PNum (PyInt 0)]) \<and>
   steps_of (fetch appending_world PNone) with_callback =
     [ConnectEsp, RequestsGet (PStr ''http://example.com/data'') PNone, ResponseJson,
      JsonTraverse (PList [PNum (PyInt 0)]), Release,
      SuccessCallback (PList [PNum (PyInt 21)]), SetText (PStr ''21'') 0]"
  by code_simp



end
